theory Spec2Isabelle
  imports Main
begin

section \<open>Python strings\<close>

text \<open>
  A Python \<open>str\<close> is modelled by \<open>string\<close>; one \<open>char\<close> is one code point, so the
  model covers the code points below 256.
\<close>

definition in_range :: "char \<Rightarrow> char \<Rightarrow> char \<Rightarrow> bool" where
  "in_range lo hi c \<longleftrightarrow> (of_char lo :: nat) \<le> of_char c \<and> (of_char c :: nat) \<le> of_char hi"

text \<open>\<open>str.isspace\<close> on one character, which is what \<open>str.strip()\<close> removes.\<close>

definition py_space :: "char \<Rightarrow> bool" where
  "py_space c \<longleftrightarrow> in_range (CHR 0x09) (CHR 0x0D) c \<or> in_range (CHR 0x1C) (CHR 0x20) c
     \<or> c = CHR 0x85 \<or> c = CHR 0xA0"

definition py_strip :: "string \<Rightarrow> string" where
  "py_strip s = rev (dropWhile py_space (rev (dropWhile py_space s)))"

text \<open>\<open>str.lower\<close>: the letters A-Z and the upper-case letters of Latin-1 move up by 32.\<close>

definition py_lower_char :: "char \<Rightarrow> char" where
  "py_lower_char c =
     (if in_range CHR ''A'' CHR ''Z'' c \<or> (in_range (CHR 0xC0) (CHR 0xDE) c \<and> c \<noteq> CHR 0xD7)
      then char_of (of_char c + (32::nat)) else c)"

definition py_lower :: "string \<Rightarrow> string" where
  "py_lower = map py_lower_char"

text \<open>\<open>needle in hay\<close> for strings: the needle starts at some position of the haystack.\<close>

fun starts_with :: "string \<Rightarrow> string \<Rightarrow> bool" where
  "starts_with [] hay = True"
| "starts_with (n # ns) [] = False"
| "starts_with (n # ns) (h # hs) = (n = h \<and> starts_with ns hs)"

fun py_in :: "string \<Rightarrow> string \<Rightarrow> bool" where
  "py_in needle [] = (needle = [])"
| "py_in needle (h # hs) = (starts_with needle (h # hs) \<or> py_in needle hs)"

text \<open>A string read with \<open>get(key, '')\<close>, or tested for being empty or missing.\<close>

definition or_empty :: "string option \<Rightarrow> string" where
  "or_empty x = (case x of None \<Rightarrow> [] | Some v \<Rightarrow> v)"

section \<open>\<open>_strip_ansi\<close>\<close>

text \<open>
  The pattern is \<^verbatim>\<open>\x1B\[[0-?]*[ -/]*[@-~]\<close>: ESC, an opening bracket, parameter
  characters, intermediate characters, one final character. The three classes are
  disjoint, so the greedy stars never give a character back: a match at a position takes
  the longest run of each class and succeeds iff a final character follows.
\<close>

definition ESC :: char where
  "ESC = CHR 0x1B"

definition csi_param :: "char \<Rightarrow> bool" where
  "csi_param = in_range CHR ''0'' CHR ''?''"

definition csi_inter :: "char \<Rightarrow> bool" where
  "csi_inter = in_range CHR '' '' CHR ''/''"

definition csi_final :: "char \<Rightarrow> bool" where
  "csi_final = in_range CHR ''@'' CHR ''~''"

text \<open>A match of the pattern at the head of the string: the text after the match.\<close>

fun csi_match :: "string \<Rightarrow> string option" where
  "csi_match (a # b # r) =
     (if a = ESC \<and> b = CHR ''['' then
        (case dropWhile csi_inter (dropWhile csi_param r) of
           [] \<Rightarrow> None
         | f # rest \<Rightarrow> if csi_final f then Some rest else None)
      else None)"
| "csi_match _ = None"

text \<open>\<open>ansi_re.sub('', s)\<close>: scan from the left, drop each match, keep every other character.\<close>

function strip_ansi :: "string \<Rightarrow> string" where
  "strip_ansi [] = []"
| "strip_ansi (c # cs) =
     (case csi_match (c # cs) of
        Some rest \<Rightarrow> strip_ansi rest
      | None \<Rightarrow> c # strip_ansi cs)"
  by pat_completeness auto
termination
proof (relation "measure length")
  fix c cs rest
  assume m: "csi_match (c # cs) = Some rest"
  show "(rest, c # cs) \<in> measure length"
  proof (cases cs)
    case Nil
    with m show ?thesis by simp
  next
    case (Cons b r)
    have "length (dropWhile csi_inter (dropWhile csi_param r)) \<le> length r"
      by (meson length_dropWhile_le order_trans)
    with m Cons show ?thesis
      by (auto split: if_splits list.splits)
  qed
qed auto

section \<open>\<open>_is_youtube_url\<close>\<close>

datatype error = ValueError | KeyError | DownloadError

text \<open>
  \<open>urlparse\<close> belongs to the standard library; the function takes it as a parameter that
  gives the \<open>netloc\<close> of the URL or raises.
\<close>

definition is_youtube_url :: "(string \<Rightarrow> error + string) \<Rightarrow> string \<Rightarrow> bool" where
  "is_youtube_url urlparse url =
     (case urlparse url of
        Inl e \<Rightarrow> False
      | Inr netloc \<Rightarrow>
          (let net = py_lower netloc
           in py_in ''youtube.com'' net \<or> py_in ''youtu.be'' net))"

section \<open>Data model\<close>

text \<open>
  The dictionaries of the extraction service, with the keys the program reads. A key that
  may be missing (or hold \<open>None\<close>) is an option. The same kind of dictionary describes a
  download format and a requested part of a download.
\<close>

record sized =
  filesize :: "int option"
  filesize_approx :: "int option"

record format = sized +
  vcodec :: "string option"
  abr :: "int option"
  height :: "int option"

record info = sized +
  title :: "string option"
  thumbnail :: "string option"
  formats :: "format list option"
  requested_formats :: "format list option"

text \<open>The \<open>format\<close> option of a size query: best audio, or best video up to a height.\<close>

datatype fmt = Bestaudio | Bestvideo_upto int

type_synonym key = "string \<times> bool \<times> string"

type_synonym image = string

datatype entry_state = Normal | Disabled

text \<open>
  The text of the size label: empty, the placeholder, \<open>Estimated size: x MB\<close> (kept as the
  byte count that the text is formatted from), and \<open>Size unknown\<close>.
\<close>

datatype size_text = Blank | Estimating | Estimated int | Size_unknown

text \<open>The callables that the program hands to \<open>window.after\<close>.\<close>

datatype callback =
    Link_status string
  | Reset_video_info_panel
  | Upd string "string option"
  | Refresh_quality_menu
  | Update_filesize_display
  | Filesize_label size_text
  | Download_status string

text \<open>What a background thread does to the shared object, one statement at a time.\<close>

datatype op =
    After nat callback
  | Set_current_info info
  | Clear_size_cache
  | Store_size key int

text \<open>
  A background thread: the statements still to run. \<open>Extract_info\<close> is the blocking call
  \<open>ydl.extract_info(url, download=False)\<close>, with what the thread does with its outcome.
\<close>

datatype prog =
    Done
  | Do op prog
  | Extract_info string "fmt option" "error + info \<Rightarrow> prog"

fun seq :: "op list \<Rightarrow> prog \<Rightarrow> prog" where
  "seq [] p = p"
| "seq (x # xs) p = Do x (seq xs p)"

text \<open>The library and system functions the program calls.\<close>

record env =
  validators_url :: "string \<Rightarrow> bool"
  urlparse :: "string \<Rightarrow> error + string"
  get_thumbnail :: "string \<Rightarrow> image option"
  basename :: "string \<Rightarrow> string"

text \<open>
  The \<open>GUI\<close> object: its variables, the widget texts it sets, the callbacks waiting in the
  event loop (\<open>after(0, ...)\<close> in order, later ones with their delay), the exceptions that
  the event loop caught in a callback, and the background threads.
\<close>

record gui =
  in_link_entry :: string
  is_mp3 :: bool
  quality_var :: string
  current_info :: "info option"
  size_cache :: "key \<rightharpoonup> int"
  photo :: "image option"
  video_title :: string
  thumbnail_canvas :: "image option"
  link_status :: string
  filesize_label :: size_text
  quality_label :: string
  menu :: "(string \<times> entry_state) list"
  download_status :: string
  ui_queue :: "callback list"
  timers :: "(nat \<times> callback) list"
  callback_errors :: "error list"
  threads :: "prog list"

section \<open>Size estimation\<close>

text \<open>\<open>a or b\<close> on an optional number: \<open>None\<close> and 0 are false.\<close>

definition py_or :: "int option \<Rightarrow> int \<Rightarrow> int" where
  "py_or a b = (case a of None \<Rightarrow> b | Some v \<Rightarrow> if v = 0 then b else v)"

definition part_size :: "'a sized_scheme \<Rightarrow> int" where
  "part_size f = py_or (filesize f) (py_or (filesize_approx f) 0)"

definition estimate_total :: "info \<Rightarrow> int" where
  "estimate_total i =
     (case requested_formats i of
        Some fs \<Rightarrow> foldl (\<lambda>tot f. tot + part_size f) 0 fs
      | None \<Rightarrow> part_size i)"

definition height_map :: "string \<rightharpoonup> int" where
  "height_map = [''480p'' \<mapsto> 480, ''720p'' \<mapsto> 720, ''1080p'' \<mapsto> 1080, ''4K'' \<mapsto> 2160]"

definition estimate_fmt :: "bool \<Rightarrow> string \<Rightarrow> fmt" where
  "estimate_fmt to_mp3 quality =
     (if to_mp3 then Bestaudio
      else Bestvideo_upto (case height_map quality of None \<Rightarrow> 720 | Some h \<Rightarrow> h))"

text \<open>\<open>_estimate_and_update_size\<close> after the query has returned.\<close>

definition estimate_done :: "key \<Rightarrow> error + info \<Rightarrow> prog" where
  "estimate_done k r =
     (case r of
        Inl e \<Rightarrow> seq [After 0 (Filesize_label Size_unknown)] Done
      | Inr i \<Rightarrow>
          seq [Store_size k (estimate_total i),
               After 0 (Filesize_label (Estimated (estimate_total i)))] Done)"

definition estimate_and_update_size :: "string \<Rightarrow> bool \<Rightarrow> string \<Rightarrow> prog" where
  "estimate_and_update_size url to_mp3 quality =
     Extract_info url (Some (estimate_fmt to_mp3 quality)) (estimate_done (url, to_mp3, quality))"

definition update_filesize_display :: "gui \<Rightarrow> gui" where
  "update_filesize_display s =
     (let url = py_strip (in_link_entry s);
          to_mp3 = is_mp3 s;
          quality = quality_var s;
          k = (url, to_mp3, quality)
      in if url = [] then s\<lparr>filesize_label := Blank\<rparr>
         else case size_cache s k of
           Some tot \<Rightarrow> s\<lparr>filesize_label := Estimated tot\<rparr>
         | None \<Rightarrow>
             s\<lparr>filesize_label := Estimating,
               threads := threads s @ [estimate_and_update_size url to_mp3 quality]\<rparr>)"

section \<open>Quality gating\<close>

definition audio_opts :: "(string \<times> int) list" where
  "audio_opts = [(''Low'', 96), (''Medium'', 192), (''High'', 320)]"

definition video_opts :: "(string \<times> int) list" where
  "video_opts = [(''480p'', 480), (''720p'', 720), (''1080p'', 1080), (''4K'', 2160)]"

text \<open>\<open>max(xs) if xs else 0\<close>.\<close>

fun max_or_0 :: "int list \<Rightarrow> int" where
  "max_or_0 [] = 0"
| "max_or_0 (x # xs) = fold max xs x"

definition abr_list :: "format list \<Rightarrow> int list" where
  "abr_list fs = [py_or (abr f) 0. f \<leftarrow> fs, vcodec f = Some ''none'']"

definition heights :: "format list \<Rightarrow> int list" where
  "heights fs = [py_or (height f) 0. f \<leftarrow> fs, vcodec f \<noteq> Some ''none'']"

definition gate :: "(string \<times> int) list \<Rightarrow> int \<Rightarrow> (string \<times> entry_state) list" where
  "gate opts cap = [(label, if v \<le> cap then Normal else Disabled). (label, v) \<leftarrow> opts]"

text \<open>The first entry of the menu that is enabled (the \<open>for ... break\<close> of the fallback).\<close>

fun first_normal :: "(string \<times> entry_state) list \<Rightarrow> string option" where
  "first_normal [] = None"
| "first_normal ((lbl, st) # es) = (if st = Normal then Some lbl else first_normal es)"

text \<open>
  \<open>_refresh_quality_menu\<close>, with the way it writes \<open>quality_var\<close> as a parameter: the
  variable has a write trace that calls this function, and the event system does not
  fire the trace of a variable again while that trace is running.
\<close>

definition refresh_with :: "(string \<Rightarrow> gui \<Rightarrow> gui) \<Rightarrow> gui \<Rightarrow> gui" where
  "refresh_with set_quality s =
     (case current_info s of
        None \<Rightarrow> s
      | Some i \<Rightarrow>
          (let s1 = s\<lparr>menu := []\<rparr>
           in case formats i of
             None \<Rightarrow> s1\<lparr>callback_errors := callback_errors s1 @ [KeyError]\<rparr>
           | Some fs \<Rightarrow>
               (let s2 = (if is_mp3 s1
                          then s1\<lparr>menu := gate audio_opts (max_or_0 (abr_list fs))\<rparr>
                          else s1\<lparr>menu := gate video_opts (max_or_0 (heights fs))\<rparr>);
                    cur = quality_var s2;
                    s3 = (if (case map_of (menu s2) cur of
                                 None \<Rightarrow> True
                               | Some st \<Rightarrow> st = Disabled)
                          then (case first_normal (menu s2) of
                                  Some lbl \<Rightarrow> set_quality lbl s2
                                | None \<Rightarrow> s2)
                          else s2)
                in update_filesize_display s3)))"

text \<open>The function as the trace runs it: a write of the variable is only a write.\<close>

definition refresh_in_trace :: "gui \<Rightarrow> gui" where
  "refresh_in_trace = refresh_with (\<lambda>v s. s\<lparr>quality_var := v\<rparr>)"

text \<open>\<open>quality_var.set(v)\<close> outside the trace: the write, then the trace.\<close>

definition quality_var_set :: "string \<Rightarrow> gui \<Rightarrow> gui" where
  "quality_var_set v s = refresh_in_trace (s\<lparr>quality_var := v\<rparr>)"

definition refresh_quality_menu :: "gui \<Rightarrow> gui" where
  "refresh_quality_menu = refresh_with quality_var_set"

definition update_quality_options :: "gui \<Rightarrow> gui" where
  "update_quality_options s =
     (let opts = (if is_mp3 s then audio_opts else video_opts);
          s1 = s\<lparr>quality_label := (if is_mp3 s then ''Audio Quality'' else ''Video Quality''),
                 menu := [(label, Normal). (label, v) \<leftarrow> opts]\<rparr>;
          default_label = fst (opts ! (length opts div 2))
      in refresh_quality_menu (quality_var_set default_label s1))"

section \<open>The link worker\<close>

text \<open>Steps 7 and 8 of \<open>wait_link\<close>: what the thread does with the fetched metadata.\<close>

definition wait_link_fetched :: "info \<Rightarrow> prog" where
  "wait_link_fetched i =
     seq [Set_current_info i,
          After 0 (Upd (or_empty (title i)) (thumbnail i)),
          Set_current_info i,
          Clear_size_cache,
          After 0 Refresh_quality_menu,
          After 0 Update_filesize_display,
          After 0 (Link_status ''Link fetched!'')] Done"

definition wait_link_done :: "error + info \<Rightarrow> prog" where
  "wait_link_done r =
     (case r of
        Inl e \<Rightarrow> seq [After 0 (Link_status ''Error fetching link.'')] Done
      | Inr i \<Rightarrow> wait_link_fetched i)"

definition wait_link :: "env \<Rightarrow> string \<Rightarrow> prog" where
  "wait_link env url =
     (if url = [] then
        seq [After 0 (Link_status ''Waiting for link...''),
             After 0 Reset_video_info_panel] Done
      else Do (After 0 (Link_status ''Verifying link...''))
        (if \<not> validators_url env url then
           seq [After 0 (Link_status ''Please enter a valid link.''),
                After 3000 (Link_status ''Waiting for link...''),
                After 0 Reset_video_info_panel] Done
         else if \<not> is_youtube_url (urlparse env) url then
           seq [After 0 (Link_status ''Please enter a valid YouTube link.''),
                After 3000 (Link_status ''Waiting for link...''),
                After 0 Reset_video_info_panel] Done
         else
           seq [After 0 (Link_status ''Link correct...''),
                After 1000 (Link_status ''Fetching link...'')]
             (Extract_info url None wait_link_done)))"

section \<open>The progress hook\<close>

record progress =
  status :: "string option"
  percent_str :: "string option"
  filename :: "string option"

definition post :: "callback \<Rightarrow> gui \<Rightarrow> gui" where
  "post cb s = s\<lparr>ui_queue := ui_queue s @ [cb]\<rparr>"

definition yt_dlp_hook :: "env \<Rightarrow> progress \<Rightarrow> gui \<Rightarrow> gui" where
  "yt_dlp_hook env d s =
     (let raw_pct = py_strip (or_empty (percent_str d));
          clean_pct = strip_ansi raw_pct;
          fname = basename env (or_empty (filename d))
      in if status d = Some ''downloading''
         then post (Download_status (''Downloading '' @ fname @ '' '' @ clean_pct)) s
         else if status d = Some ''finished''
         then post (Download_status (''Finished '' @ fname)) s
         else s)"

section \<open>The event loop and the threads\<close>

fun exec_op :: "op \<Rightarrow> gui \<Rightarrow> gui" where
  "exec_op (After ms cb) s =
     (if ms = 0 then post cb s else s\<lparr>timers := timers s @ [(ms, cb)]\<rparr>)"
| "exec_op (Set_current_info i) s = s\<lparr>current_info := Some i\<rparr>"
| "exec_op Clear_size_cache s = s\<lparr>size_cache := Map.empty\<rparr>"
| "exec_op (Store_size k v) s = s\<lparr>size_cache := (size_cache s)(k \<mapsto> v)\<rparr>"

definition reset_video_info_panel :: "gui \<Rightarrow> gui" where
  "reset_video_info_panel s =
     s\<lparr>video_title := [], photo := None, thumbnail_canvas := None,
       current_info := None, filesize_label := Blank\<rparr>"

text \<open>The closure \<open>upd\<close> of \<open>wait_link\<close>, over the title and the thumbnail address.\<close>

definition upd :: "env \<Rightarrow> string \<Rightarrow> string option \<Rightarrow> gui \<Rightarrow> gui" where
  "upd env ttl thumb s =
     (let s1 = s\<lparr>video_title := ttl, thumbnail_canvas := None\<rparr>
      in if or_empty thumb = [] then s1
         else (let s2 = s1\<lparr>photo := get_thumbnail env (or_empty thumb)\<rparr>
               in case photo s2 of
                    None \<Rightarrow> s2
                  | Some im \<Rightarrow> s2\<lparr>thumbnail_canvas := Some im\<rparr>))"

fun run_callback :: "env \<Rightarrow> callback \<Rightarrow> gui \<Rightarrow> gui" where
  "run_callback env (Link_status t) s = s\<lparr>link_status := t\<rparr>"
| "run_callback env Reset_video_info_panel s = reset_video_info_panel s"
| "run_callback env (Upd ttl thumb) s = upd env ttl thumb s"
| "run_callback env Refresh_quality_menu s = refresh_quality_menu s"
| "run_callback env Update_filesize_display s = update_filesize_display s"
| "run_callback env (Filesize_label t) s = s\<lparr>filesize_label := t\<rparr>"
| "run_callback env (Download_status t) s = s\<lparr>download_status := t\<rparr>"

text \<open>
  What can happen next: the user edits the link, picks a quality or an output kind; the
  event loop runs its oldest \<open>after(0, ...)\<close> callback or a timer; a thread runs its next
  statement; a blocked query returns; the download reports progress.
\<close>

datatype event =
    Edit string
  | Select_quality string
  | Select_mp3 bool
  | Ui
  | Fire nat
  | Step nat
  | Return nat "error + info"
  | Hook progress

fun exec :: "env \<Rightarrow> event \<Rightarrow> gui \<Rightarrow> gui" where
  "exec env (Edit text) s =
     s\<lparr>in_link_entry := text, threads := threads s @ [wait_link env text]\<rparr>"
| "exec env (Select_quality v) s = quality_var_set v s"
| "exec env (Select_mp3 b) s = update_quality_options (s\<lparr>is_mp3 := b\<rparr>)"
| "exec env Ui s =
     (case ui_queue s of
        [] \<Rightarrow> s
      | cb # q \<Rightarrow> run_callback env cb (s\<lparr>ui_queue := q\<rparr>))"
| "exec env (Fire n) s =
     (if n < length (timers s)
      then run_callback env (snd (timers s ! n))
             (s\<lparr>timers := take n (timers s) @ drop (Suc n) (timers s)\<rparr>)
      else s)"
| "exec env (Step n) s =
     (if n < length (threads s)
      then (case threads s ! n of
              Do x p \<Rightarrow> exec_op x (s\<lparr>threads := (threads s)[n := p]\<rparr>)
            | _ \<Rightarrow> s)
      else s)"
| "exec env (Return n r) s =
     (if n < length (threads s)
      then (case threads s ! n of
              Extract_info u f k \<Rightarrow> s\<lparr>threads := (threads s)[n := k r]\<rparr>
            | _ \<Rightarrow> s)
      else s)"
| "exec env (Hook d) s = yt_dlp_hook env d s"

definition run :: "env \<Rightarrow> event list \<Rightarrow> gui \<Rightarrow> gui" where
  "run env evs s = foldl (\<lambda>s ev. exec env ev s) s evs"

text \<open>A thread that runs all its statements up to its next blocking call, undisturbed.\<close>

fun run_prog :: "prog \<Rightarrow> gui \<Rightarrow> gui" where
  "run_prog (Do x p) s = run_prog p (exec_op x s)"
| "run_prog p s = s"

text \<open>The event loop running a list of callbacks, oldest first.\<close>

definition run_callbacks :: "env \<Rightarrow> callback list \<Rightarrow> gui \<Rightarrow> gui" where
  "run_callbacks env cbs s = foldl (\<lambda>s cb. run_callback env cb s) s cbs"

text \<open>The object after \<open>__init__\<close>.\<close>

definition gui_init :: gui where
  "gui_init = update_quality_options
     \<lparr>in_link_entry = [], is_mp3 = True, quality_var = ''Medium'', current_info = None,
      size_cache = Map.empty, photo = None, video_title = [], thumbnail_canvas = None,
      link_status = ''Waiting for link...'', filesize_label = Blank,
      quality_label = ''Audio Quality'',
      menu = [(''Low'', Normal), (''Medium'', Normal), (''High'', Normal)],
      download_status = [], ui_queue = [], timers = [], callback_errors = [], threads = []\<rparr>"

section \<open>Text with control sequences\<close>

text \<open>
  A control sequence of the kind the docstring of \<open>_strip_ansi\<close> shows (\<open>ESC[0;94m\<close>), in
  the standard's terms: ESC (0x1B), an opening bracket (0x5B), any number of parameter
  bytes 0x30-0x3F, any number of intermediate bytes 0x20-0x2F, and one final byte
  0x40-0x7E.
\<close>

definition parameter_byte :: "char \<Rightarrow> bool" where
  "parameter_byte c \<longleftrightarrow> (of_char c :: nat) \<in> {0x30..0x3F}"

definition intermediate_byte :: "char \<Rightarrow> bool" where
  "intermediate_byte c \<longleftrightarrow> (of_char c :: nat) \<in> {0x20..0x2F}"

definition final_byte :: "char \<Rightarrow> bool" where
  "final_byte c \<longleftrightarrow> (of_char c :: nat) \<in> {0x40..0x7E}"

fun is_csi :: "string \<Rightarrow> bool" where
  "is_csi (a # b # r) =
     (a = CHR 0x1B \<and> b = CHR 0x5B \<and> r \<noteq> [] \<and> final_byte (last r)
      \<and> list_all intermediate_byte (dropWhile parameter_byte (butlast r)))"
| "is_csi _ = False"

text \<open>
  A percent string as the download service builds it: pieces of plain text, which hold
  no ESC, and control sequences between them. What the user is to read is the plain text.
\<close>

datatype piece = Plain string | Ctrl string

fun piece_raw :: "piece \<Rightarrow> string" where
  "piece_raw (Plain t) = t"
| "piece_raw (Ctrl e) = e"

fun piece_text :: "piece \<Rightarrow> string" where
  "piece_text (Plain t) = t"
| "piece_text (Ctrl e) = []"

fun piece_ok :: "piece \<Rightarrow> bool" where
  "piece_ok (Plain t) = (CHR 0x1B \<notin> set t)"
| "piece_ok (Ctrl e) = is_csi e"

text \<open>
  \<open>strip()\<close> on such a string, piece by piece: white space goes from the plain pieces at
  either end, up to the first piece that keeps a character (\<open>rtrim_rev\<close> works on the
  pieces in reverse order).
\<close>

fun ltrim_pieces :: "piece list \<Rightarrow> piece list" where
  "ltrim_pieces [] = []"
| "ltrim_pieces (Plain t # ps) =
     (if list_all py_space t then ltrim_pieces ps else Plain (dropWhile py_space t) # ps)"
| "ltrim_pieces (Ctrl e # ps) = Ctrl e # ps"

fun rtrim_rev :: "piece list \<Rightarrow> piece list" where
  "rtrim_rev [] = []"
| "rtrim_rev (Plain t # ps) =
     (if list_all py_space t then rtrim_rev ps
      else Plain (rev (dropWhile py_space (rev t))) # ps)"
| "rtrim_rev (Ctrl e # ps) = Ctrl e # ps"

definition trim_pieces :: "piece list \<Rightarrow> piece list" where
  "trim_pieces ps = rev (rtrim_rev (rev (ltrim_pieces ps)))"

section \<open>Gating in the words of the specification\<close>

text \<open>
  The supported options are the enabled entries of the menu. \<open>maxAbr\<close> is the largest
  audio bitrate over the audio-only formats and \<open>maxHeight\<close> the largest height over the
  video formats, 0 when there is none; a missing value counts as 0.
\<close>

definition enabled_labels :: "(string \<times> entry_state) list \<Rightarrow> string list" where
  "enabled_labels m = [lbl. (lbl, st) \<leftarrow> m, st = Normal]"

definition spec_max_abr :: "format list \<Rightarrow> int" where
  "spec_max_abr fs =
     (let A = (\<lambda>f. py_or (abr f) 0) ` {f \<in> set fs. vcodec f = Some ''none''}
      in if A = {} then 0 else Max A)"

definition spec_max_height :: "format list \<Rightarrow> int" where
  "spec_max_height fs =
     (let H = (\<lambda>f. py_or (height f) 0) ` {f \<in> set fs. vcodec f \<noteq> Some ''none''}
      in if H = {} then 0 else Max H)"

text \<open>The menu that \<open>_refresh_quality_menu\<close> builds, and its test for a fallback.\<close>

definition gated_menu :: "bool \<Rightarrow> format list \<Rightarrow> (string \<times> entry_state) list" where
  "gated_menu to_mp3 fs =
     (if to_mp3 then gate audio_opts (max_or_0 (abr_list fs))
      else gate video_opts (max_or_0 (heights fs)))"

definition needs_fallback :: "(string \<times> entry_state) list \<Rightarrow> string \<Rightarrow> bool" where
  "needs_fallback m cur = (case map_of m cur of None \<Rightarrow> True | Some st \<Rightarrow> st = Disabled)"

section \<open>Runs of the program\<close>

text \<open>The first \<open>n\<close> statements of a thread.\<close>

fun run_steps :: "nat \<Rightarrow> prog \<Rightarrow> gui \<Rightarrow> gui" where
  "run_steps (Suc n) (Do x p) s = run_steps n p (exec_op x s)"
| "run_steps n p s = s"

text \<open>The number of statements of a thread before it blocks or ends, and what is left then.\<close>

fun statements :: "prog \<Rightarrow> nat" where
  "statements (Do x p) = Suc (statements p)"
| "statements p = 0"

fun blocked :: "prog \<Rightarrow> prog" where
  "blocked (Do x p) = blocked p"
| "blocked p = p"

text \<open>What is left of a thread after its first \<open>n\<close> statements.\<close>

fun remaining :: "nat \<Rightarrow> prog \<Rightarrow> prog" where
  "remaining (Suc k) (Do x p) = remaining k p"
| "remaining k p = p"

text \<open>The event loop running every callback that waits in it.\<close>

definition drain :: "env \<Rightarrow> gui \<Rightarrow> gui" where
  "drain env s = run_callbacks env (ui_queue s) (s\<lparr>ui_queue := []\<rparr>)"

text \<open>
  A size query returns for the key of its request, its thread runs to its end, and the
  event loop runs what the thread has queued.
\<close>

definition estimate_completes :: "env \<Rightarrow> key \<Rightarrow> info \<Rightarrow> gui \<Rightarrow> gui" where
  "estimate_completes env k i s = drain env (run_prog (estimate_done k (Inr i)) s)"

text \<open>
  The metadata query of thread \<open>n\<close> returns, the thread runs its seven statements, and the
  event loop runs the four callbacks that the thread has queued, nothing else in between.
\<close>

definition fetch_completion :: "nat \<Rightarrow> info \<Rightarrow> event list" where
  "fetch_completion n i = Return n (Inr i) # replicate 7 (Step n) @ replicate 4 Ui"

text \<open>The callbacks that the link thread queues for fetched metadata, in its order.\<close>

definition fetched_callbacks :: "info \<Rightarrow> callback list" where
  "fetched_callbacks i =
     [Upd (or_empty (title i)) (thumbnail i), Refresh_quality_menu, Update_filesize_display,
      Link_status ''Link fetched!'']"

text \<open>The key that \<open>update_filesize_display\<close> builds from the current selection.\<close>

definition request_key :: "gui \<Rightarrow> key" where
  "request_key s = (py_strip (in_link_entry s), is_mp3 s, quality_var s)"

text \<open>Reading a value off the object a run ends in; the object with another event queue.\<close>

definition observed :: "(gui \<Rightarrow> 'a) \<Rightarrow> gui \<Rightarrow> 'a" where
  "observed f s = f s"

definition with_queue :: "callback list \<Rightarrow> gui \<Rightarrow> gui" where
  "with_queue q s = s\<lparr>ui_queue := q\<rparr>"

section \<open>Sample inputs\<close>

text \<open>
  Stand-ins for the library functions on the sample links below: a link is valid when it
  starts with \<open>https://\<close>, its \<open>netloc\<close> runs up to the next slash, an opening square
  bracket makes the parser raise, and an image is named by its address.
\<close>

definition sample_urlparse :: "string \<Rightarrow> error + string" where
  "sample_urlparse u =
     (if CHR ''['' \<in> set u then Inl ValueError
      else Inr (takeWhile (\<lambda>c. c \<noteq> CHR ''/'') (drop 8 u)))"

definition sample_env :: env where
  "sample_env =
     \<lparr>validators_url = (\<lambda>u. take 8 u = ''https://''),
      urlparse = sample_urlparse,
      get_thumbnail = (\<lambda>t. Some t),
      basename = (\<lambda>p. p)\<rparr>"

definition audio_format :: "int \<Rightarrow> format" where
  "audio_format k =
     \<lparr>filesize = None, filesize_approx = None, vcodec = Some ''none'', abr = Some k,
      height = None\<rparr>"

definition sample_info :: "string \<Rightarrow> format list \<Rightarrow> info" where
  "sample_info t fs =
     \<lparr>filesize = None, filesize_approx = None, title = Some t,
      thumbnail = Some (''https://i.ytimg.com/'' @ t), formats = Some fs,
      requested_formats = None\<rparr>"

definition sized_info :: "int \<Rightarrow> info" where
  "sized_info n =
     \<lparr>filesize = Some n, filesize_approx = None, title = None, thumbnail = None,
      formats = None, requested_formats = None\<rparr>"

definition video_format :: "int \<Rightarrow> format" where
  "video_format h =
     \<lparr>filesize = None, filesize_approx = None, vcodec = Some ''avc1'', abr = None,
      height = Some h\<rparr>"

text \<open>The object after start-up, with an output kind, a quality and metadata set.\<close>

definition selected :: "bool \<Rightarrow> string \<Rightarrow> info \<Rightarrow> gui" where
  "selected to_mp3 q i = gui_init\<lparr>is_mp3 := to_mp3, quality_var := q, current_info := Some i\<rparr>"

text \<open>A progress event of a download with the given percent string.\<close>

definition sample_progress :: "string \<Rightarrow> progress" where
  "sample_progress p =
     \<lparr>status = Some ''downloading'', percent_str = Some p, filename = Some ''a.mp3''\<rparr>"

text \<open>
  The object with link \<open>b\<close> in the input and the fetches for \<open>a\<close> (thread 0, the older) and
  for \<open>b\<close> (thread 1) in flight; and the object with a size cached for \<open>a\<close> and the fetch
  for \<open>b\<close> in flight.
\<close>

definition two_fetches :: gui where
  "two_fetches =
     gui_init\<lparr>in_link_entry := ''https://youtu.be/b'',
       threads := [Extract_info ''https://youtu.be/a'' None wait_link_done,
                   Extract_info ''https://youtu.be/b'' None wait_link_done]\<rparr>"

definition cached_fetch :: gui where
  "cached_fetch =
     gui_init\<lparr>in_link_entry := ''https://youtu.be/b'',
       size_cache := [(''https://youtu.be/a'', True, ''Medium'') \<mapsto> 2000],
       threads := [Extract_info ''https://youtu.be/b'' None wait_link_done]\<rparr>"

text \<open>
  Schedules. In each the link thread runs its three statements up to the query; after
  the query has returned it runs its seven statements, and the event loop runs the
  callbacks. \<open>first_fetch\<close>: the link \<open>a\<close> is entered and fetched, which leaves the two size
  queries of its two size requests in flight (threads 1 and 2).
\<close>

definition first_fetch :: "event list" where
  "first_fetch =
     [Edit ''https://youtu.be/a'', Step 0, Step 0, Step 0,
      Return 0 (Inr (sample_info ''A'' [audio_format 200])),
      Step 0, Step 0, Step 0, Step 0, Step 0, Step 0, Step 0,
      Ui, Ui, Ui, Ui, Ui, Ui]"

text \<open>Link \<open>a\<close>, then link \<open>b\<close>; the fetch for \<open>b\<close> completes first, the fetch for \<open>a\<close> last.\<close>

definition stale_fetch_schedule :: "event list" where
  "stale_fetch_schedule =
     [Edit ''https://youtu.be/a'', Step 0, Step 0, Step 0,
      Edit ''https://youtu.be/b'', Step 1, Step 1, Step 1,
      Return 1 (Inr (sample_info ''B'' [audio_format 200])),
      Step 1, Step 1, Step 1, Step 1, Step 1, Step 1, Step 1,
      Ui, Ui, Ui, Ui, Ui, Ui, Ui, Ui,
      Return 0 (Inr (sample_info ''A'' [audio_format 200])),
      Step 0, Step 0, Step 0, Step 0, Step 0, Step 0, Step 0,
      Ui, Ui, Ui, Ui]"

text \<open>
  After the fetch the user picks Low (thread 3 is its size query); the query for Low
  returns first, one of the queries for Medium last.
\<close>

definition stale_estimate_schedule :: "event list" where
  "stale_estimate_schedule =
     first_fetch @
     [Select_quality ''Low'',
      Return 3 (Inr (sized_info 1000)), Step 3, Step 3, Ui,
      Return 1 (Inr (sized_info 2000)), Step 1, Step 1, Ui]"

text \<open>After the fetch of \<open>a\<close> the user enters \<open>b\<close>, and the fetch for \<open>b\<close> fails.\<close>

definition failed_fetch_schedule :: "event list" where
  "failed_fetch_schedule =
     first_fetch @
     [Edit ''https://youtu.be/b'', Step 3, Step 3, Step 3,
      Return 3 (Inl DownloadError), Step 3, Ui, Ui, Ui]"

text \<open>
  A size for \<open>a\<close> gets cached; the user enters \<open>b\<close>; after the fetch for \<open>b\<close> has returned,
  its thread runs two statements and the event loop runs the callbacks queued so far.
\<close>

definition early_publish_schedule :: "event list" where
  "early_publish_schedule =
     first_fetch @
     [Return 1 (Inr (sized_info 1000)), Step 1, Step 1, Ui,
      Edit ''https://youtu.be/b'', Step 3, Step 3, Step 3,
      Return 3 (Inr (sample_info ''B'' [audio_format 200])), Step 3, Step 3,
      Ui, Ui, Ui]"

section \<open>Facts about the string functions\<close>

lemma starts_with_iff: "starts_with n h \<longleftrightarrow> (\<exists>b. h = n @ b)"
  by (induction n h rule: starts_with.induct) auto

lemma py_in_iff: "py_in n h \<longleftrightarrow> (\<exists>a b. h = a @ n @ b)"
proof (induction h)
  case Nil
  then show ?case by auto
next
  case (Cons x h)
  show ?case
    by (simp add: Cons starts_with_iff) (auto simp: Cons_eq_append_conv)
qed

lemma csi_classes:
  "csi_param = parameter_byte"
  "csi_inter = intermediate_byte"
  "csi_final = final_byte"
  by (auto simp: fun_eq_iff csi_param_def csi_inter_def csi_final_def in_range_def
      parameter_byte_def intermediate_byte_def final_byte_def)

lemma byte_classes:
  "final_byte c \<Longrightarrow> \<not> parameter_byte c"
  "final_byte c \<Longrightarrow> \<not> intermediate_byte c"
  "intermediate_byte c \<Longrightarrow> \<not> parameter_byte c"
  "final_byte c \<Longrightarrow> \<not> py_space c"
  "\<not> py_space (CHR 0x1B)"
  by (auto simp: parameter_byte_def intermediate_byte_def final_byte_def py_space_def in_range_def)

lemma dropWhile_body:
  assumes "list_all intermediate_byte (dropWhile parameter_byte body)" "final_byte f"
  shows "dropWhile intermediate_byte (dropWhile parameter_byte (body @ f # t)) = f # t"
proof -
  have "dropWhile parameter_byte (body @ f # t) = dropWhile parameter_byte body @ f # t"
    using assms(2) by (induction body) (auto simp: byte_classes)
  moreover have "dropWhile intermediate_byte (dropWhile parameter_byte body @ f # t) = f # t"
    using assms by (simp add: dropWhile_append list_all_iff byte_classes)
  ultimately show ?thesis by simp
qed

lemma csi_match_csi: "is_csi e \<Longrightarrow> csi_match (e @ t) = Some t"
proof (induction e rule: is_csi.induct)
  case (1 a b r)
  then have r: "r = butlast r @ [last r]" by simp
  have "dropWhile intermediate_byte (dropWhile parameter_byte (butlast r @ last r # t)) = last r # t"
    using 1 by (intro dropWhile_body) auto
  then have "dropWhile intermediate_byte (dropWhile parameter_byte (r @ t)) = last r # t"
    by (metis r append_Cons append_Nil append_assoc)
  with 1 show ?case by (simp add: csi_classes ESC_def)
qed simp_all

lemma strip_ansi_csi: "is_csi e \<Longrightarrow> strip_ansi (e @ t) = strip_ansi t"
  using csi_match_csi [of e t] by (cases e) auto

lemma csi_match_no_esc: "c \<noteq> CHR 0x1B \<Longrightarrow> csi_match (c # cs) = None"
  by (cases cs) (auto simp: ESC_def)

lemma strip_ansi_plain: "CHR 0x1B \<notin> set t \<Longrightarrow> strip_ansi (t @ r) = t @ strip_ansi r"
  by (induction t) (auto simp: csi_match_no_esc)

lemma strip_ansi_pieces:
  "list_all piece_ok ps \<Longrightarrow> strip_ansi (concat (map piece_raw ps)) = concat (map piece_text ps)"
proof (induction ps)
  case Nil
  then show ?case by simp
next
  case (Cons p ps)
  then show ?case
    by (cases p) (auto simp: strip_ansi_plain strip_ansi_csi)
qed

lemma no_esc_text: "list_all piece_ok ps \<Longrightarrow> CHR 0x1B \<notin> set (concat (map piece_text ps))"
proof (induction ps)
  case Nil
  then show ?case by simp
next
  case (Cons p ps)
  then show ?case by (cases p) auto
qed

lemma is_csi_ends: "is_csi e \<Longrightarrow> e \<noteq> [] \<and> hd e = CHR 0x1B \<and> final_byte (last e)"
  by (induction e rule: is_csi.induct) auto

lemma ltrim_ok: "list_all piece_ok ps \<Longrightarrow> list_all piece_ok (ltrim_pieces ps)"
proof (induction ps rule: ltrim_pieces.induct)
  case (2 t ps)
  have "set (dropWhile py_space t) \<subseteq> set t"
    by (simp add: set_dropWhileD subsetI)
  with 2 show ?case by auto
qed simp_all

lemma rtrim_ok: "list_all piece_ok ps \<Longrightarrow> list_all piece_ok (rtrim_rev ps)"
proof (induction ps rule: rtrim_rev.induct)
  case (2 t ps)
  have "set (dropWhile py_space (rev t)) \<subseteq> set t"
    by (metis set_dropWhileD set_rev subsetI)
  with 2 show ?case by auto
qed simp_all

lemma trim_ok: "list_all piece_ok ps \<Longrightarrow> list_all piece_ok (trim_pieces ps)"
  by (simp add: trim_pieces_def ltrim_ok rtrim_ok)

lemma ltrim_raw:
  "list_all piece_ok ps \<Longrightarrow>
     dropWhile py_space (concat (map piece_raw ps)) = concat (map piece_raw (ltrim_pieces ps))"
proof (induction ps rule: ltrim_pieces.induct)
  case 1
  then show ?case by simp
next
  case (2 t ps)
  then show ?case by (auto simp: dropWhile_append list_all_iff)
next
  case (3 e ps)
  then have "is_csi e" by simp
  then obtain r where "e = CHR 0x1B # r"
    using is_csi_ends [of e] by (cases e) auto
  then show ?case by (simp add: byte_classes)
qed

lemma rtrim_raw:
  "list_all piece_ok ps \<Longrightarrow>
     rev (dropWhile py_space (rev (concat (map piece_raw (rev ps)))))
       = concat (map piece_raw (rev (rtrim_rev ps)))"
proof (induction ps rule: rtrim_rev.induct)
  case 1
  then show ?case by simp
next
  case (2 t ps)
  then show ?case by (auto simp: dropWhile_append list_all_iff)
next
  case (3 e ps)
  then have "is_csi e" by simp
  then obtain r f where "rev e = f # r" "final_byte f"
    using is_csi_ends [of e] by (cases e rule: rev_cases) auto
  then show ?case by (simp add: byte_classes)
qed

lemma py_strip_pieces:
  assumes "list_all piece_ok ps"
  shows "py_strip (concat (map piece_raw ps)) = concat (map piece_raw (trim_pieces ps))"
proof -
  have "list_all piece_ok (rev (ltrim_pieces ps))"
    using ltrim_ok [OF assms] by simp
  from rtrim_raw [OF this] show ?thesis
    by (simp add: py_strip_def trim_pieces_def ltrim_raw [OF assms])
qed

section \<open>The progress text\<close>

text \<open>
  Claim C8, as stated: for every percent string all embedded control sequences are
  removed before the string reaches the display. The substitution makes one pass: from
  \<open>ESC[ESC[0m0m\<close> it removes the inner sequence, and the hook displays what is left
  around it, the control sequence \<open>ESC[0m\<close>; a sequence of another kind (ESC, a closing
  bracket, text, BEL) is displayed as it came.
\<close>

theorem control_sequence_displayed_counterexample:
  "is_csi (CHR 0x1B # ''[0m'')
   \<and> strip_ansi (py_strip (CHR 0x1B # CHR 0x5B # CHR 0x1B # ''[0m0m'')) = CHR 0x1B # ''[0m''
   \<and> yt_dlp_hook sample_env (sample_progress (CHR 0x1B # CHR 0x5B # CHR 0x1B # ''[0m0m'')) gui_init
       = post (Download_status (''Downloading a.mp3 '' @ CHR 0x1B # ''[0m'')) gui_init
   \<and> strip_ansi (py_strip (CHR 0x1B # '']0;a'' @ [CHR 0x07])) = CHR 0x1B # '']0;a'' @ [CHR 0x07]"
  by (simp add: yt_dlp_hook_def sample_progress_def sample_env_def or_empty_def py_strip_def
      py_space_def ESC_def csi_param_def csi_inter_def csi_final_def in_range_def
      final_byte_def intermediate_byte_def parameter_byte_def)

text \<open>
  Claim C8, amended: for every percent string made of plain text without ESC and of
  control sequences of the form ESC, opening bracket, parameter bytes, intermediate
  bytes, final byte, \<open>_strip_ansi\<close> returns the plain text alone, and the hook displays the
  plain text of the string stripped of white space at its ends, which holds no ESC; in
  particular \<open>ESC[0;94m42%ESC[0m\<close> gives exactly \<open>42%\<close>.
\<close>

theorem strip_ansi_removes_csi_sequences:
  assumes "list_all piece_ok ps"
    and "status d = Some ''downloading''"
    and "percent_str d = Some (concat (map piece_raw ps))"
  shows "strip_ansi (concat (map piece_raw ps)) = concat (map piece_text ps)
       \<and> yt_dlp_hook env d s =
           post (Download_status (''Downloading '' @ basename env (or_empty (filename d)) @ '' ''
                   @ concat (map piece_text (trim_pieces ps)))) s
       \<and> CHR 0x1B \<notin> set (concat (map piece_text (trim_pieces ps)))
       \<and> strip_ansi (CHR 0x1B # ''[0;94m42%'' @ CHR 0x1B # ''[0m'') = ''42%''"
proof (intro conjI)
  show "strip_ansi (concat (map piece_raw ps)) = concat (map piece_text ps)"
    by (rule strip_ansi_pieces [OF assms(1)])
  have "strip_ansi (py_strip (concat (map piece_raw ps))) = concat (map piece_text (trim_pieces ps))"
    by (simp add: py_strip_pieces [OF assms(1)] strip_ansi_pieces [OF trim_ok [OF assms(1)]])
  then show "yt_dlp_hook env d s =
           post (Download_status (''Downloading '' @ basename env (or_empty (filename d)) @ '' ''
                   @ concat (map piece_text (trim_pieces ps)))) s"
    using assms(2,3) by (simp add: yt_dlp_hook_def or_empty_def)
  show "CHR 0x1B \<notin> set (concat (map piece_text (trim_pieces ps)))"
    by (rule no_esc_text [OF trim_ok [OF assms(1)]])
  show "strip_ansi (CHR 0x1B # ''[0;94m42%'' @ CHR 0x1B # ''[0m'') = ''42%''"
    by (simp add: ESC_def csi_param_def csi_inter_def csi_final_def in_range_def)
qed

theorem strip_ansi_removes_csi_sequences_witness:
  "list_all piece_ok [Ctrl (CHR 0x1B # ''[0;94m''), Plain '' 42% '', Ctrl (CHR 0x1B # ''[0m'')]
   \<and> yt_dlp_hook sample_env
        (sample_progress (CHR 0x1B # ''[0;94m 42% '' @ CHR 0x1B # ''[0m'')) gui_init
       = post (Download_status ''Downloading a.mp3  42% '') gui_init
   \<and> list_all piece_ok [Plain ''  '', Ctrl (CHR 0x1B # ''[0;94m''), Plain ''42% '']
   \<and> yt_dlp_hook sample_env (sample_progress (''  '' @ CHR 0x1B # ''[0;94m42% '')) gui_init
       = post (Download_status ''Downloading a.mp3 42%'') gui_init"
proof -
  let ?ps = "[Ctrl (CHR 0x1B # ''[0;94m''), Plain '' 42% '', Ctrl (CHR 0x1B # ''[0m'')]"
  let ?qs = "[Plain ''  '', Ctrl (CHR 0x1B # ''[0;94m''), Plain ''42% '']"
  have ok: "list_all piece_ok ?ps" "list_all piece_ok ?qs"
    by (simp_all add: final_byte_def intermediate_byte_def parameter_byte_def)
  have d: "status (sample_progress p) = Some ''downloading''"
      "percent_str (sample_progress p) = Some p" "filename (sample_progress p) = Some ''a.mp3''" for p
    by (simp_all add: sample_progress_def)
  have p: "percent_str (sample_progress (CHR 0x1B # ''[0;94m 42% '' @ CHR 0x1B # ''[0m''))
        = Some (concat (map piece_raw ?ps))"
      "percent_str (sample_progress (''  '' @ CHR 0x1B # ''[0;94m42% ''))
        = Some (concat (map piece_raw ?qs))"
    by (simp_all add: d)
  have t: "concat (map piece_text (trim_pieces ?ps)) = '' 42% ''"
      "concat (map piece_text (trim_pieces ?qs)) = ''42%''"
    by (simp_all add: trim_pieces_def py_space_def in_range_def)
  from strip_ansi_removes_csi_sequences [OF ok(1) d(1) p(1), of sample_env gui_init]
    strip_ansi_removes_csi_sequences [OF ok(2) d(1) p(2), of sample_env gui_init] ok
  show ?thesis
    by (simp add: t d or_empty_def sample_env_def)
qed

section \<open>The platform check\<close>

text \<open>
  Claim C10. \<open>_is_youtube_url\<close> accepts a link iff the lower-cased \<open>netloc\<close> of the parsed
  link contains \<open>youtube.com\<close> or \<open>youtu.be\<close> as a substring, so a host that only embeds
  one of them, such as \<open>www.youtube.com.evil.example\<close>, is accepted; when the parser
  raises, the result is \<open>False\<close>.
\<close>

theorem is_youtube_url_substring:
  "(is_youtube_url parse url \<longleftrightarrow>
      (\<exists>netloc a b. parse url = Inr netloc
         \<and> (py_lower netloc = a @ ''youtube.com'' @ b \<or> py_lower netloc = a @ ''youtu.be'' @ b)))
   \<and> (parse url = Inr ''www.youtube.com.evil.example'' \<longrightarrow> is_youtube_url parse url)
   \<and> (parse url = Inl e \<longrightarrow> \<not> is_youtube_url parse url)"
proof (intro conjI impI)
  show "is_youtube_url parse url \<longleftrightarrow>
      (\<exists>netloc a b. parse url = Inr netloc
         \<and> (py_lower netloc = a @ ''youtube.com'' @ b \<or> py_lower netloc = a @ ''youtu.be'' @ b))"
    by (cases "parse url") (auto simp: is_youtube_url_def py_in_iff Let_def)
next
  assume "parse url = Inr ''www.youtube.com.evil.example''"
  then show "is_youtube_url parse url"
    by (simp add: is_youtube_url_def py_lower_def py_lower_char_def in_range_def)
next
  assume "parse url = Inl e"
  then show "\<not> is_youtube_url parse url"
    by (simp add: is_youtube_url_def)
qed

theorem is_youtube_url_substring_witness:
  "sample_urlparse ''https://www.youtube.com.evil.example/watch'' = Inr ''www.youtube.com.evil.example''
   \<and> is_youtube_url sample_urlparse ''https://www.youtube.com.evil.example/watch''
   \<and> sample_urlparse ''https://[youtu.be/'' = Inl ValueError
   \<and> \<not> is_youtube_url sample_urlparse ''https://[youtu.be/''"
proof -
  have a: "sample_urlparse ''https://www.youtube.com.evil.example/watch'' = Inr ''www.youtube.com.evil.example''"
    by (simp add: sample_urlparse_def)
  have b: "sample_urlparse ''https://[youtu.be/'' = Inl ValueError"
    by (simp add: sample_urlparse_def)
  from a b is_youtube_url_substring [of sample_urlparse "''https://www.youtube.com.evil.example/watch''"]
    is_youtube_url_substring [of sample_urlparse "''https://[youtu.be/''" ValueError]
  show ?thesis by blast
qed

section \<open>Quality gating\<close>

lemma max_or_0_Max: "max_or_0 xs = (if xs = [] then 0 else Max (set xs))"
proof (cases xs)
  case Nil
  then show ?thesis by simp
next
  case (Cons a list)
  then show ?thesis
    using Max.set_eq_fold [of a list] by simp
qed

lemma max_abr_spec: "max_or_0 (abr_list fs) = spec_max_abr fs"
proof -
  have seteq: "(\<lambda>f. py_or (abr f) 0) ` {f \<in> set fs. vcodec f = Some ''none''} = set (abr_list fs)"
    by (auto simp: abr_list_def)
  show ?thesis
    unfolding spec_max_abr_def Let_def seteq max_or_0_Max by simp
qed

lemma max_height_spec: "max_or_0 (heights fs) = spec_max_height fs"
proof -
  have seteq: "(\<lambda>f. py_or (height f) 0) ` {f \<in> set fs. vcodec f \<noteq> Some ''none''} = set (heights fs)"
    by (auto simp: heights_def)
  show ?thesis
    unfolding spec_max_height_def Let_def seteq max_or_0_Max by simp
qed

lemma ufd_keeps [simp]:
  "menu (update_filesize_display s) = menu s"
  "quality_var (update_filesize_display s) = quality_var s"
  "is_mp3 (update_filesize_display s) = is_mp3 s"
  "current_info (update_filesize_display s) = current_info s"
  by (simp_all add: update_filesize_display_def Let_def split: option.splits)

lemma first_normal_map_of:
  "distinct (map fst m) \<Longrightarrow> first_normal m = Some l \<Longrightarrow> map_of m l = Some Normal"
proof (induction m rule: first_normal.induct)
  case 1
  then show ?case by simp
next
  case (2 lbl st es)
  then show ?case
    by (auto split: if_splits dest!: map_of_SomeD simp: rev_image_eqI)
qed

lemma first_normal_ok:
  "distinct (map fst m) \<Longrightarrow> first_normal m = Some l \<Longrightarrow> \<not> needs_fallback m l"
  by (simp add: needs_fallback_def first_normal_map_of)

lemma gated_menu_labels:
  "map fst (gated_menu to_mp3 fs) = map fst (if to_mp3 then audio_opts else video_opts)"
  by (simp add: gated_menu_def gate_def audio_opts_def video_opts_def)

lemma gated_menu_distinct: "distinct (map fst (gated_menu to_mp3 fs))"
  by (simp add: gated_menu_labels audio_opts_def video_opts_def)

lemma refresh_with_unfold:
  assumes "current_info s = Some i" "formats i = Some fs"
  shows "refresh_with set_quality s =
     (let s2 = s\<lparr>menu := gated_menu (is_mp3 s) fs\<rparr>
      in update_filesize_display
           (if needs_fallback (gated_menu (is_mp3 s) fs) (quality_var s)
            then (case first_normal (gated_menu (is_mp3 s) fs) of
                    Some lbl \<Rightarrow> set_quality lbl s2
                  | None \<Rightarrow> s2)
            else s2))"
  using assms
  by (simp add: refresh_with_def gated_menu_def needs_fallback_def Let_def split: option.splits)

lemma refresh_in_trace_valid:
  assumes "current_info s = Some i" "formats i = Some fs"
    and "\<not> needs_fallback (gated_menu (is_mp3 s) fs) (quality_var s)"
  shows "menu (refresh_in_trace s) = gated_menu (is_mp3 s) fs"
    and "quality_var (refresh_in_trace s) = quality_var s"
  using assms by (simp_all add: refresh_in_trace_def refresh_with_unfold Let_def)

lemma refresh_quality_menu_result:
  assumes "current_info s = Some i" "formats i = Some fs"
  shows "menu (refresh_quality_menu s) = gated_menu (is_mp3 s) fs"
    and "quality_var (refresh_quality_menu s) =
      (if needs_fallback (gated_menu (is_mp3 s) fs) (quality_var s)
       then (case first_normal (gated_menu (is_mp3 s) fs) of
               Some lbl \<Rightarrow> lbl
             | None \<Rightarrow> quality_var s)
       else quality_var s)"
proof -
  let ?m = "gated_menu (is_mp3 s) fs"
  have inner: "menu (quality_var_set lbl (s\<lparr>menu := ?m\<rparr>)) = ?m
      \<and> quality_var (quality_var_set lbl (s\<lparr>menu := ?m\<rparr>)) = lbl"
    if "first_normal ?m = Some lbl" for lbl
  proof -
    have "\<not> needs_fallback ?m lbl"
      using that by (rule first_normal_ok [OF gated_menu_distinct])
    then show ?thesis
      using assms refresh_in_trace_valid [of "s\<lparr>menu := ?m, quality_var := lbl\<rparr>" i fs]
      by (simp add: quality_var_set_def)
  qed
  show "menu (refresh_quality_menu s) = ?m"
    using assms inner
    by (auto simp: refresh_quality_menu_def refresh_with_unfold Let_def split: option.splits)
  show "quality_var (refresh_quality_menu s) =
      (if needs_fallback ?m (quality_var s)
       then (case first_normal ?m of Some lbl \<Rightarrow> lbl | None \<Rightarrow> quality_var s)
       else quality_var s)"
    using assms inner
    by (auto simp: refresh_quality_menu_def refresh_with_unfold Let_def split: option.splits)
qed

lemma gate_audio:
  "gate audio_opts cap =
     [(''Low'', if 96 \<le> cap then Normal else Disabled),
      (''Medium'', if 192 \<le> cap then Normal else Disabled),
      (''High'', if 320 \<le> cap then Normal else Disabled)]"
  by (simp add: gate_def audio_opts_def)

lemma gate_video:
  "gate video_opts cap =
     [(''480p'', if 480 \<le> cap then Normal else Disabled),
      (''720p'', if 720 \<le> cap then Normal else Disabled),
      (''1080p'', if 1080 \<le> cap then Normal else Disabled),
      (''4K'', if 2160 \<le> cap then Normal else Disabled)]"
  by (simp add: gate_def video_opts_def)

lemma enabled_gate: "enabled_labels (gate opts cap) = [lbl. (lbl, v) \<leftarrow> opts, v \<le> cap]"
  by (induction opts) (auto simp: enabled_labels_def gate_def)

lemma first_normal_hd:
  "first_normal m = (case enabled_labels m of [] \<Rightarrow> None | l # ls \<Rightarrow> Some l)"
  by (induction m rule: first_normal.induct) (auto simp: enabled_labels_def)

lemma set_enabled_labels: "set (enabled_labels m) = {l. (l, Normal) \<in> set m}"
  by (induction m) (auto simp: enabled_labels_def)

lemma needs_fallback_iff:
  assumes "distinct (map fst m)"
  shows "needs_fallback m cur \<longleftrightarrow> cur \<notin> set (enabled_labels m)"
proof -
  have "map_of m cur = Some Normal \<longleftrightarrow> (cur, Normal) \<in> set m"
    using assms by simp
  then show ?thesis
    by (cases "map_of m cur") (auto simp: needs_fallback_def set_enabled_labels, (metis entry_state.exhaust)+)
qed

lemma gui_init_eq:
  "gui_init =
     \<lparr>in_link_entry = [], is_mp3 = True, quality_var = ''Medium'', current_info = None,
      size_cache = Map.empty, photo = None, video_title = [], thumbnail_canvas = None,
      link_status = ''Waiting for link...'', filesize_label = Blank,
      quality_label = ''Audio Quality'',
      menu = [(''Low'', Normal), (''Medium'', Normal), (''High'', Normal)],
      download_status = [], ui_queue = [], timers = [], callback_errors = [], threads = []\<rparr>"
  by (simp add: gui_init_def update_quality_options_def refresh_quality_menu_def
      quality_var_set_def refresh_in_trace_def refresh_with_def audio_opts_def)

text \<open>
  Claim C3. For every format list, gating enables an audio option iff its bitrate is at
  most \<open>maxAbr\<close>, the largest bitrate over the audio-only formats (0 when none), and a
  video option iff its height is at most \<open>maxHeight\<close>, the largest height over the video
  formats (0 when none); \<open>maxAbr = 150\<close> enables exactly Low, and \<open>maxHeight = 1080\<close>
  enables exactly 480p, 720p and 1080p.
\<close>

theorem gating_by_capability:
  assumes "current_info s = Some i" and "formats i = Some fs"
  shows "(is_mp3 s \<longrightarrow>
            menu (refresh_quality_menu s) =
              [(''Low'', if 96 \<le> spec_max_abr fs then Normal else Disabled),
               (''Medium'', if 192 \<le> spec_max_abr fs then Normal else Disabled),
               (''High'', if 320 \<le> spec_max_abr fs then Normal else Disabled)]
            \<and> (spec_max_abr fs = 150 \<longrightarrow>
                 enabled_labels (menu (refresh_quality_menu s)) = [''Low'']))
       \<and> (\<not> is_mp3 s \<longrightarrow>
            menu (refresh_quality_menu s) =
              [(''480p'', if 480 \<le> spec_max_height fs then Normal else Disabled),
               (''720p'', if 720 \<le> spec_max_height fs then Normal else Disabled),
               (''1080p'', if 1080 \<le> spec_max_height fs then Normal else Disabled),
               (''4K'', if 2160 \<le> spec_max_height fs then Normal else Disabled)]
            \<and> (spec_max_height fs = 1080 \<longrightarrow>
                 enabled_labels (menu (refresh_quality_menu s)) = [''480p'', ''720p'', ''1080p'']))"
  using refresh_quality_menu_result(1) [OF assms]
  by (simp add: gated_menu_def gate_audio gate_video max_abr_spec max_height_spec enabled_labels_def)

theorem gating_by_capability_witness:
  "current_info (selected True ''Medium'' (sample_info ''T'' [audio_format 150, video_format 1080]))
     = Some (sample_info ''T'' [audio_format 150, video_format 1080])
   \<and> spec_max_abr [audio_format 150, video_format 1080] = 150
   \<and> spec_max_height [audio_format 150, video_format 1080] = 1080
   \<and> enabled_labels (menu (refresh_quality_menu
        (selected True ''Medium'' (sample_info ''T'' [audio_format 150, video_format 1080])))) = [''Low'']
   \<and> enabled_labels (menu (refresh_quality_menu
        (selected False ''720p'' (sample_info ''T'' [audio_format 150, video_format 1080]))))
       = [''480p'', ''720p'', ''1080p'']"
proof -
  let ?fs = "[audio_format 150, video_format 1080]"
  let ?i = "sample_info ''T'' ?fs"
  have a: "spec_max_abr ?fs = 150"
    by (simp add: max_abr_spec [symmetric] abr_list_def audio_format_def video_format_def py_or_def)
  have h: "spec_max_height ?fs = 1080"
    by (simp add: max_height_spec [symmetric] heights_def audio_format_def video_format_def py_or_def)
  have c: "current_info (selected b q ?i) = Some ?i" "is_mp3 (selected b q ?i) = b" for b q
    by (simp_all add: selected_def)
  have f: "formats ?i = Some ?fs"
    by (simp add: sample_info_def)
  from gating_by_capability [OF c(1) f, of True "''Medium''"]
    gating_by_capability [OF c(1) f, of False "''720p''"] a h c
  show ?thesis by (simp add: enabled_labels_def)
qed

text \<open>
  Claim C6. When the selected quality is not among the supported options of a gating
  run, the selection becomes the first supported option, which is the lowest one; when
  no option is supported, the menu has no enabled entry (and the selection stays).
\<close>

theorem fallback_selects_first_supported:
  assumes "current_info s = Some i" and "formats i = Some fs"
    and "quality_var s \<notin> set (enabled_labels (menu (refresh_quality_menu s)))"
  shows "(enabled_labels (menu (refresh_quality_menu s)) \<noteq> [] \<longrightarrow>
            quality_var (refresh_quality_menu s) = hd (enabled_labels (menu (refresh_quality_menu s)))
            \<and> quality_var (refresh_quality_menu s) = (if is_mp3 s then ''Low'' else ''480p''))
       \<and> (enabled_labels (menu (refresh_quality_menu s)) = [] \<longrightarrow>
            (\<forall>e \<in> set (menu (refresh_quality_menu s)). snd e = Disabled)
            \<and> quality_var (refresh_quality_menu s) = quality_var s)"
proof -
  let ?m = "gated_menu (is_mp3 s) fs"
  note r = refresh_quality_menu_result [OF assms(1,2)]
  have nf: "needs_fallback ?m (quality_var s)"
    using assms(3) by (simp add: r(1) needs_fallback_iff [OF gated_menu_distinct])
  have q: "quality_var (refresh_quality_menu s) =
      (case enabled_labels ?m of [] \<Rightarrow> quality_var s | l # ls \<Rightarrow> l)"
    using nf by (simp add: r(2) first_normal_hd split: list.splits)
  have lowest: "enabled_labels ?m \<noteq> [] \<Longrightarrow> hd (enabled_labels ?m) = (if is_mp3 s then ''Low'' else ''480p'')"
    by (auto simp: gated_menu_def gate_audio gate_video enabled_labels_def split: if_splits)
  have none: "enabled_labels ?m = [] \<Longrightarrow> \<forall>e \<in> set ?m. snd e = Disabled"
    by (auto simp: gated_menu_def gate_audio gate_video enabled_labels_def split: if_splits)
  show ?thesis
    using q lowest none by (auto simp: r(1) split: list.splits)
qed

theorem fallback_selects_first_supported_witness:
  "quality_var (selected True ''High'' (sample_info ''T'' [audio_format 200]))
     \<notin> set (enabled_labels (menu (refresh_quality_menu
          (selected True ''High'' (sample_info ''T'' [audio_format 200])))))
   \<and> enabled_labels (menu (refresh_quality_menu
        (selected True ''High'' (sample_info ''T'' [audio_format 200])))) = [''Low'', ''Medium'']
   \<and> quality_var (refresh_quality_menu
        (selected True ''High'' (sample_info ''T'' [audio_format 200]))) = ''Low''
   \<and> enabled_labels (menu (refresh_quality_menu
        (selected True ''High'' (sample_info ''T'' [audio_format 50])))) = []
   \<and> quality_var (refresh_quality_menu
        (selected True ''High'' (sample_info ''T'' [audio_format 50]))) = ''High''"
proof -
  let ?s = "\<lambda>k. selected True ''High'' (sample_info ''T'' [audio_format k])"
  have c: "current_info (?s k) = Some (sample_info ''T'' [audio_format k])"
      "is_mp3 (?s k)" "quality_var (?s k) = ''High''" for k
    by (simp_all add: selected_def gui_init_eq)
  have f: "formats (sample_info ''T'' [audio_format k]) = Some [audio_format k]" for k
    by (simp add: sample_info_def)
  have m: "enabled_labels (menu (refresh_quality_menu (?s k)))
      = (if 192 \<le> k then [''Low'', ''Medium''] else if 96 \<le> k then [''Low''] else [])"
    if "k < 320" for k
  proof -
    have "max_or_0 (abr_list [audio_format k]) = k"
      by (simp add: abr_list_def audio_format_def py_or_def)
    then show ?thesis
      using that refresh_quality_menu_result(1) [OF c(1) f, of k]
      by (simp add: c gated_menu_def gate_audio enabled_labels_def)
  qed
  have e200: "quality_var (?s 200) \<notin> set (enabled_labels (menu (refresh_quality_menu (?s 200))))"
    by (simp add: m c)
  have e50: "quality_var (?s 50) \<notin> set (enabled_labels (menu (refresh_quality_menu (?s 50))))"
    by (simp add: m c)
  from fallback_selects_first_supported [OF c(1) f e200]
    fallback_selects_first_supported [OF c(1) f e50] e200
  show ?thesis by (simp add: m c)
qed

text \<open>
  Claim C7, as stated: with High selected and \<open>maxAbr\<close> below 320, the selection moves to
  the highest option that is still supported. With \<open>maxAbr = 200\<close> Low and Medium are
  supported, and the selection moves to Low, not to Medium.
\<close>

theorem fallback_from_high_counterexample:
  "is_mp3 (selected True ''High'' (sample_info ''T'' [audio_format 200]))
   \<and> quality_var (selected True ''High'' (sample_info ''T'' [audio_format 200])) = ''High''
   \<and> spec_max_abr [audio_format 200] = 200
   \<and> enabled_labels (menu (refresh_quality_menu
        (selected True ''High'' (sample_info ''T'' [audio_format 200])))) = [''Low'', ''Medium'']
   \<and> quality_var (refresh_quality_menu
        (selected True ''High'' (sample_info ''T'' [audio_format 200]))) = ''Low''
   \<and> quality_var (refresh_quality_menu
        (selected True ''High'' (sample_info ''T'' [audio_format 200]))) \<noteq> ''Medium''"
proof -
  let ?s = "selected True ''High'' (sample_info ''T'' [audio_format 200])"
  have c: "current_info ?s = Some (sample_info ''T'' [audio_format 200])"
      "is_mp3 ?s" "quality_var ?s = ''High''"
    by (simp_all add: selected_def gui_init_eq)
  have f: "formats (sample_info ''T'' [audio_format 200]) = Some [audio_format 200]"
    by (simp add: sample_info_def)
  have a: "spec_max_abr [audio_format 200] = 200"
    by (simp add: max_abr_spec [symmetric] abr_list_def audio_format_def py_or_def)
  have g: "gated_menu True [audio_format 200]
      = [(''Low'', Normal), (''Medium'', Normal), (''High'', Disabled)]"
    by (simp add: gated_menu_def gate_audio max_abr_spec a)
  show ?thesis
    using refresh_quality_menu_result [OF c(1) f]
    by (simp add: c a g enabled_labels_def needs_fallback_def)
qed

text \<open>
  Claim C7, amended: with High selected and \<open>maxAbr\<close> below 320, the selection moves to
  Low, the lowest option, when \<open>maxAbr\<close> is at least 96, and stays High when no option is
  supported.
\<close>

theorem fallback_from_high:
  assumes "is_mp3 s" and "quality_var s = ''High''"
    and "current_info s = Some i" and "formats i = Some fs"
    and "spec_max_abr fs < 320"
  shows "quality_var (refresh_quality_menu s) = (if 96 \<le> spec_max_abr fs then ''Low'' else ''High'')"
  using refresh_quality_menu_result(2) [OF assms(3,4)] assms(1,2,5)
  by (simp add: gated_menu_def gate_audio max_abr_spec needs_fallback_def)

theorem fallback_from_high_witness:
  "spec_max_abr [audio_format 200] < 320
   \<and> quality_var (refresh_quality_menu
        (selected True ''High'' (sample_info ''T'' [audio_format 200]))) = ''Low''
   \<and> spec_max_abr [audio_format 50] < 320
   \<and> quality_var (refresh_quality_menu
        (selected True ''High'' (sample_info ''T'' [audio_format 50]))) = ''High''"
proof -
  let ?s = "\<lambda>k. selected True ''High'' (sample_info ''T'' [audio_format k])"
  have c: "current_info (?s k) = Some (sample_info ''T'' [audio_format k])"
      "is_mp3 (?s k)" "quality_var (?s k) = ''High''" for k
    by (simp_all add: selected_def gui_init_eq)
  have f: "formats (sample_info ''T'' [audio_format k]) = Some [audio_format k]" for k
    by (simp add: sample_info_def)
  have a: "spec_max_abr [audio_format k] = k" for k
    by (simp add: max_abr_spec [symmetric] abr_list_def audio_format_def py_or_def)
  from fallback_from_high [OF c(2,3,1) f, of 200] fallback_from_high [OF c(2,3,1) f, of 50]
  show ?thesis by (simp add: a)
qed

section \<open>Threads, callbacks and events\<close>

lemma run_append: "run env (a @ b) s = run env b (run env a s)"
  by (simp add: run_def)

lemma with_queue_simps:
  "current_info (with_queue q s) = current_info s"
  "is_mp3 (with_queue q s) = is_mp3 s"
  "quality_var (with_queue q s) = quality_var s"
  "callback_errors (with_queue q s) = callback_errors s"
  "menu (with_queue q s) = menu s"
  "(with_queue q s)\<lparr>menu := m\<rparr> = with_queue q (s\<lparr>menu := m\<rparr>)"
  "(with_queue q s)\<lparr>quality_var := v\<rparr> = with_queue q (s\<lparr>quality_var := v\<rparr>)"
  "(with_queue q s)\<lparr>callback_errors := es\<rparr> = with_queue q (s\<lparr>callback_errors := es\<rparr>)"
  by (simp_all add: with_queue_def)

lemma ufd_queue:
  "update_filesize_display (with_queue q s) = with_queue q (update_filesize_display s)"
  by (simp add: with_queue_def update_filesize_display_def Let_def split: option.splits)

lemma refresh_with_queue:
  assumes "\<And>v s. set_quality v (with_queue q s) = with_queue q (set_quality v s)"
  shows "refresh_with set_quality (with_queue q s) = with_queue q (refresh_with set_quality s)"
  by (simp add: refresh_with_def Let_def with_queue_simps ufd_queue assms split: option.splits)

lemma refresh_in_trace_queue:
  "refresh_in_trace (with_queue q s) = with_queue q (refresh_in_trace s)"
  unfolding refresh_in_trace_def by (rule refresh_with_queue) (simp add: with_queue_simps)

lemma refresh_quality_menu_queue:
  "refresh_quality_menu (with_queue q s) = with_queue q (refresh_quality_menu s)"
  unfolding refresh_quality_menu_def
  by (rule refresh_with_queue) (simp add: quality_var_set_def with_queue_simps refresh_in_trace_queue)

lemma run_callback_queue:
  "run_callback env cb (s\<lparr>ui_queue := q\<rparr>) = (run_callback env cb s)\<lparr>ui_queue := q\<rparr>"
proof (cases cb)
  case Refresh_quality_menu
  then show ?thesis
    using refresh_quality_menu_queue [of q s] by (simp add: with_queue_def)
next
  case Update_filesize_display
  then show ?thesis
    using ufd_queue [of q s] by (simp add: with_queue_def)
qed (simp_all add: reset_video_info_panel_def upd_def Let_def split: option.splits)

lemma run_callbacks_queue:
  "run_callbacks env cbs (s\<lparr>ui_queue := q\<rparr>) = (run_callbacks env cbs s)\<lparr>ui_queue := q\<rparr>"
  by (induction cbs arbitrary: s) (simp_all add: run_callbacks_def run_callback_queue)

lemma drain_events_aux:
  "ui_queue s = q \<Longrightarrow> run env (replicate (length q) Ui) s = drain env s"
proof (induction q arbitrary: s)
  case Nil
  then show ?case by (simp add: run_def drain_def run_callbacks_def)
next
  case (Cons cb q)
  let ?s1 = "run_callback env cb (s\<lparr>ui_queue := q\<rparr>)"
  have q1: "ui_queue ?s1 = q"
    by (simp add: run_callback_queue)
  have "run env (replicate (length (cb # q)) Ui) s = run env (replicate (length q) Ui) ?s1"
    using Cons.prems by (simp add: run_def)
  also have "\<dots> = drain env ?s1"
    by (rule Cons.IH [OF q1])
  also have "\<dots> = drain env s"
    using Cons.prems
    by (simp add: drain_def run_callbacks_def run_callback_queue)
  finally show ?case .
qed

lemma drain_events: "run env (replicate (length (ui_queue s)) Ui) s = drain env s"
  by (rule drain_events_aux) simp

lemma exec_op_threads:
  "exec_op x (s\<lparr>threads := ts\<rparr>) = (exec_op x s)\<lparr>threads := ts\<rparr>"
  by (cases x) (simp_all add: post_def)

lemma exec_op_threads_same [simp]: "threads (exec_op x s) = threads s"
  by (cases x) (simp_all add: post_def)

lemma run_prog_threads:
  "run_prog p (s\<lparr>threads := ts\<rparr>) = (run_prog p s)\<lparr>threads := ts\<rparr>"
  by (induction p s rule: run_prog.induct) (simp_all add: exec_op_threads)

lemma thread_events:
  "n < length (threads s) \<Longrightarrow> threads s ! n = p \<Longrightarrow>
     run env (replicate (statements p) (Step n)) s
       = (run_prog p s)\<lparr>threads := (threads s)[n := blocked p]\<rparr>"
proof (induction p arbitrary: s)
  case Done
  then have "(threads s)[n := Done] = threads s"
    by (metis list_update_id)
  then show ?case by (simp add: run_def)
next
  case (Do x p)
  let ?s1 = "exec_op x (s\<lparr>threads := (threads s)[n := p]\<rparr>)"
  have "run env (replicate (statements (Do x p)) (Step n)) s
      = run env (replicate (statements p) (Step n)) ?s1"
    using Do.prems by (simp add: run_def)
  also have "\<dots> = (run_prog p ?s1)\<lparr>threads := (threads ?s1)[n := blocked p]\<rparr>"
    using Do.prems by (intro Do.IH) simp_all
  finally show ?case
    by (simp add: exec_op_threads run_prog_threads)
next
  case (Extract_info u f k)
  then have "(threads s)[n := Extract_info u f k] = threads s"
    by (metis list_update_id)
  with Extract_info show ?case by (simp add: run_def)
qed

lemma ufd_display [simp]:
  "video_title (update_filesize_display s) = video_title s"
  "in_link_entry (update_filesize_display s) = in_link_entry s"
  "ui_queue (update_filesize_display s) = ui_queue s"
  "size_cache (update_filesize_display s) = size_cache s"
  "thumbnail_canvas (update_filesize_display s) = thumbnail_canvas s"
  by (simp_all add: update_filesize_display_def Let_def split: option.splits)

lemma refresh_with_keeps:
  assumes "\<And>v s. video_title (set_quality v s) = video_title s
              \<and> in_link_entry (set_quality v s) = in_link_entry s
              \<and> ui_queue (set_quality v s) = ui_queue s
              \<and> size_cache (set_quality v s) = size_cache s
              \<and> current_info (set_quality v s) = current_info s
              \<and> is_mp3 (set_quality v s) = is_mp3 s
              \<and> thumbnail_canvas (set_quality v s) = thumbnail_canvas s"
  shows "video_title (refresh_with set_quality s) = video_title s
       \<and> in_link_entry (refresh_with set_quality s) = in_link_entry s
       \<and> ui_queue (refresh_with set_quality s) = ui_queue s
       \<and> size_cache (refresh_with set_quality s) = size_cache s
       \<and> current_info (refresh_with set_quality s) = current_info s
       \<and> is_mp3 (refresh_with set_quality s) = is_mp3 s
       \<and> thumbnail_canvas (refresh_with set_quality s) = thumbnail_canvas s"
  by (simp add: refresh_with_def Let_def assms split: option.splits)

lemma refresh_in_trace_keeps:
  "video_title (refresh_in_trace s) = video_title s
   \<and> in_link_entry (refresh_in_trace s) = in_link_entry s
   \<and> ui_queue (refresh_in_trace s) = ui_queue s
   \<and> size_cache (refresh_in_trace s) = size_cache s
   \<and> current_info (refresh_in_trace s) = current_info s
   \<and> is_mp3 (refresh_in_trace s) = is_mp3 s
   \<and> thumbnail_canvas (refresh_in_trace s) = thumbnail_canvas s"
  unfolding refresh_in_trace_def by (rule refresh_with_keeps) simp

lemma refresh_quality_menu_keeps:
  "video_title (refresh_quality_menu s) = video_title s
   \<and> in_link_entry (refresh_quality_menu s) = in_link_entry s
   \<and> ui_queue (refresh_quality_menu s) = ui_queue s
   \<and> size_cache (refresh_quality_menu s) = size_cache s
   \<and> current_info (refresh_quality_menu s) = current_info s
   \<and> is_mp3 (refresh_quality_menu s) = is_mp3 s
   \<and> thumbnail_canvas (refresh_quality_menu s) = thumbnail_canvas s"
  unfolding refresh_quality_menu_def
  by (rule refresh_with_keeps) (simp add: quality_var_set_def refresh_in_trace_keeps)

lemma upd_fields:
  "video_title (upd env t th s) = t"
  "in_link_entry (upd env t th s) = in_link_entry s"
  "ui_queue (upd env t th s) = ui_queue s"
  "current_info (upd env t th s) = current_info s"
  "size_cache (upd env t th s) = size_cache s"
  "thumbnail_canvas (upd env t th s) =
     (if or_empty th = [] then None else get_thumbnail env (or_empty th))"
  by (simp_all add: upd_def Let_def split: option.splits)

lemma run_wait_link_fetched:
  "run_prog (wait_link_fetched i) s =
     s\<lparr>current_info := Some i, size_cache := Map.empty,
       ui_queue := ui_queue s @ [Upd (or_empty (title i)) (thumbnail i), Refresh_quality_menu,
                                 Update_filesize_display, Link_status ''Link fetched!'']\<rparr>"
  by (simp add: wait_link_fetched_def post_def)

lemma run_Cons: "run env (e # es) s = run env es (exec env e s)"
  by (simp add: run_def)

lemma ufd_threads: "\<exists>ts. threads (update_filesize_display s) = threads s @ ts"
  by (simp add: update_filesize_display_def Let_def split: option.splits)

lemma refresh_with_threads:
  assumes setq: "\<And>v s. \<exists>ts. threads (set_quality v s) = threads s @ ts"
  shows "\<exists>ts. threads (refresh_with set_quality s) = threads s @ ts"
proof (cases "current_info s")
  case None
  then show ?thesis by (simp add: refresh_with_def)
next
  case (Some i)
  show ?thesis
  proof (cases "formats i")
    case None
    with Some show ?thesis by (simp add: refresh_with_def Let_def)
  next
    case (Some fs)
    let ?s2 = "s\<lparr>menu := gated_menu (is_mp3 s) fs\<rparr>"
    obtain x where x: "refresh_with set_quality s = update_filesize_display x"
        and "x = ?s2 \<or> (\<exists>lbl. x = set_quality lbl ?s2)"
      using refresh_with_unfold [OF \<open>current_info s = Some i\<close> Some, of set_quality]
      by (auto simp: Let_def split: option.splits if_splits)
    then obtain ts1 where "threads x = threads s @ ts1"
      using setq [of _ ?s2] by auto
    moreover obtain ts2 where "threads (update_filesize_display x) = threads x @ ts2"
      using ufd_threads by blast
    ultimately show ?thesis
      by (simp add: x)
  qed
qed

lemma refresh_quality_menu_threads:
  "\<exists>ts. threads (refresh_quality_menu s) = threads s @ ts"
proof -
  have inner: "\<exists>ts. threads (refresh_in_trace s) = threads s @ ts" for s
    unfolding refresh_in_trace_def by (rule refresh_with_threads) simp
  have "\<exists>ts. threads (quality_var_set v s) = threads s @ ts" for v s
    using inner [of "s\<lparr>quality_var := v\<rparr>"] by (simp add: quality_var_set_def)
  then show ?thesis
    unfolding refresh_quality_menu_def by (rule refresh_with_threads)
qed

lemma upd_threads: "threads (upd env t th s) = threads s"
  by (simp add: upd_def Let_def split: option.splits)

lemma drain_fetched:
  assumes q: "ui_queue s = [Upd t th, Refresh_quality_menu, Update_filesize_display, Link_status m]"
  shows "ui_queue (drain env s) = []"
    and "current_info (drain env s) = current_info s"
    and "video_title (drain env s) = t"
    and "thumbnail_canvas (drain env s) =
      (if or_empty th = [] then None else get_thumbnail env (or_empty th))"
    and "in_link_entry (drain env s) = in_link_entry s"
    and "\<exists>ts. threads (drain env s) = threads s @ ts"
proof -
  let ?a = "upd env t th (s\<lparr>ui_queue := []\<rparr>)"
  let ?b = "refresh_quality_menu ?a"
  let ?c = "update_filesize_display ?b"
  have d: "drain env s = ?c\<lparr>link_status := m\<rparr>"
    by (simp add: drain_def q run_callbacks_def)
  show "ui_queue (drain env s) = []" "current_info (drain env s) = current_info s"
    "video_title (drain env s) = t" "in_link_entry (drain env s) = in_link_entry s"
    "thumbnail_canvas (drain env s) =
      (if or_empty th = [] then None else get_thumbnail env (or_empty th))"
    by (simp_all add: d refresh_quality_menu_keeps upd_fields)
  obtain ts1 where "threads ?b = threads ?a @ ts1"
    using refresh_quality_menu_threads by blast
  moreover obtain ts2 where "threads ?c = threads ?b @ ts2"
    using ufd_threads by blast
  ultimately show "\<exists>ts. threads (drain env s) = threads s @ ts"
    by (simp add: d upd_threads)
qed

lemma fetch_completion_run:
  assumes n: "n < length (threads s)"
    and t: "threads s ! n = Extract_info u f wait_link_done"
    and q: "ui_queue s = []"
  shows "ui_queue (run env (fetch_completion n i) s) = []"
    and "current_info (run env (fetch_completion n i) s) = Some i"
    and "video_title (run env (fetch_completion n i) s) = or_empty (title i)"
    and "thumbnail_canvas (run env (fetch_completion n i) s) =
      (if or_empty (thumbnail i) = [] then None else get_thumbnail env (or_empty (thumbnail i)))"
    and "in_link_entry (run env (fetch_completion n i) s) = in_link_entry s"
    and "\<exists>ts. threads (run env (fetch_completion n i) s) = (threads s)[n := Done] @ ts"
proof -
  let ?s1 = "s\<lparr>threads := (threads s)[n := wait_link_fetched i]\<rparr>"
  let ?s2 = "s\<lparr>current_info := Some i, size_cache := Map.empty,
       ui_queue := [Upd (or_empty (title i)) (thumbnail i), Refresh_quality_menu,
                    Update_filesize_display, Link_status ''Link fetched!''],
       threads := (threads s)[n := Done]\<rparr>"
  have st: "statements (wait_link_fetched i) = 7" "blocked (wait_link_fetched i) = Done"
    by (simp_all add: wait_link_fetched_def)
  have "exec env (Return n (Inr i)) s = ?s1"
    using n t by (simp add: wait_link_done_def)
  moreover have "run env (replicate 7 (Step n)) ?s1 = ?s2"
    using thread_events [of n ?s1 "wait_link_fetched i" env] n q
    by (simp add: st run_wait_link_fetched)
  moreover have "run env (replicate 4 Ui) ?s2 = drain env ?s2"
    using drain_events [of env ?s2] by (simp add: eval_nat_numeral)
  ultimately have r: "run env (fetch_completion n i) s = drain env ?s2"
    by (simp add: fetch_completion_def run_Cons run_append)
  have q2: "ui_queue ?s2 = [Upd (or_empty (title i)) (thumbnail i), Refresh_quality_menu,
                    Update_filesize_display, Link_status ''Link fetched!'']"
    by simp
  show "ui_queue (run env (fetch_completion n i) s) = []"
    "current_info (run env (fetch_completion n i) s) = Some i"
    "video_title (run env (fetch_completion n i) s) = or_empty (title i)"
    "thumbnail_canvas (run env (fetch_completion n i) s) =
      (if or_empty (thumbnail i) = [] then None else get_thumbnail env (or_empty (thumbnail i)))"
    "in_link_entry (run env (fetch_completion n i) s) = in_link_entry s"
    "\<exists>ts. threads (run env (fetch_completion n i) s) = (threads s)[n := Done] @ ts"
    using drain_fetched [OF q2, of env] by (simp_all add: r)
qed

lemma run_steps_threads:
  "run_steps k p (s\<lparr>threads := ts\<rparr>) = (run_steps k p s)\<lparr>threads := ts\<rparr>"
  by (induction k p s rule: run_steps.induct) (simp_all add: exec_op_threads)

lemma steps_events:
  "n < length (threads s) \<Longrightarrow> threads s ! n = p \<Longrightarrow>
     run env (replicate k (Step n)) s
       = (run_steps k p s)\<lparr>threads := (threads s)[n := remaining k p]\<rparr>"
proof (induction k arbitrary: s p)
  case 0
  then have "(threads s)[n := p] = threads s"
    by (metis list_update_id)
  then show ?case by (simp add: run_def)
next
  case (Suc k)
  show ?case
  proof (cases p)
    case (Do x q)
    let ?s1 = "exec_op x (s\<lparr>threads := (threads s)[n := q]\<rparr>)"
    have "run env (replicate (Suc k) (Step n)) s = run env (replicate k (Step n)) ?s1"
      using Suc.prems Do by (simp add: run_Cons)
    also have "\<dots> = (run_steps k q ?s1)\<lparr>threads := (threads ?s1)[n := remaining k q]\<rparr>"
      using Suc.prems by (intro Suc.IH) simp_all
    finally show ?thesis
      using Do by (simp add: exec_op_threads run_steps_threads)
  next
    case Done
    with Suc.prems have "exec env (Step n) s = s" by simp
    then have "run env (replicate (Suc k) (Step n)) s = run env (replicate k (Step n)) s"
      by (simp add: run_Cons)
    with Suc.IH [OF Suc.prems] Done show ?thesis by simp
  next
    case (Extract_info u f c)
    with Suc.prems have "exec env (Step n) s = s" by simp
    then have "run env (replicate (Suc k) (Step n)) s = run env (replicate k (Step n)) s"
      by (simp add: run_Cons)
    with Suc.IH [OF Suc.prems] Extract_info show ?thesis by simp
  qed
qed


section \<open>The sample runs\<close>

lemma sample_link:
  "wait_link sample_env ''https://youtu.be/a'' =
     seq [After 0 (Link_status ''Verifying link...''), After 0 (Link_status ''Link correct...''),
          After 1000 (Link_status ''Fetching link...'')]
       (Extract_info ''https://youtu.be/a'' None wait_link_done)"
  "wait_link sample_env ''https://youtu.be/b'' =
     seq [After 0 (Link_status ''Verifying link...''), After 0 (Link_status ''Link correct...''),
          After 1000 (Link_status ''Fetching link...'')]
       (Extract_info ''https://youtu.be/b'' None wait_link_done)"
  by (simp_all add: wait_link_def sample_env_def sample_urlparse_def is_youtube_url_def
      py_lower_def py_lower_char_def in_range_def)

lemma sample_strip:
  "py_strip ''https://youtu.be/a'' = ''https://youtu.be/a''"
  "py_strip ''https://youtu.be/b'' = ''https://youtu.be/b''"
  by (simp_all add: py_strip_def py_space_def in_range_def)

lemma sample_abr: "max_or_0 (abr_list [audio_format k]) = k"
  by (simp add: abr_list_def audio_format_def py_or_def)

lemmas run_simps = run_def gui_init_eq sample_abr sample_strip
  wait_link_done_def wait_link_fetched_def post_def upd_def or_empty_def
  refresh_quality_menu_def refresh_with_def quality_var_set_def
  refresh_in_trace_def update_filesize_display_def gate_def audio_opts_def Let_def

lemma first_fetch_state:
  "run sample_env first_fetch gui_init =
     \<lparr>in_link_entry = ''https://youtu.be/a'', is_mp3 = True, quality_var = ''Medium'',
      current_info = Some (sample_info ''A'' [audio_format 200]),
      size_cache = Map.empty, photo = Some ''https://i.ytimg.com/A'', video_title = ''A'',
      thumbnail_canvas = Some ''https://i.ytimg.com/A'',
      link_status = ''Link fetched!'', filesize_label = Estimating,
      quality_label = ''Audio Quality'',
      menu = [(''Low'', Normal), (''Medium'', Normal), (''High'', Disabled)],
      download_status = [], ui_queue = [],
      timers = [(1000, Link_status ''Fetching link...'')], callback_errors = [],
      threads = [Done, estimate_and_update_size ''https://youtu.be/a'' True ''Medium'',
                 estimate_and_update_size ''https://youtu.be/a'' True ''Medium'']\<rparr>"
proof -
  have i: "formats (sample_info ''A'' [audio_format 200]) = Some [audio_format 200]"
      "title (sample_info ''A'' [audio_format 200]) = Some ''A''"
      "thumbnail (sample_info ''A'' [audio_format 200]) = Some ''https://i.ytimg.com/A''"
    by (simp_all add: sample_info_def)
  have g: "get_thumbnail sample_env = Some"
    by (auto simp: sample_env_def)
  show ?thesis
    by (simp add: first_fetch_def run_simps sample_link i g)
qed


lemma sample_info_fields:
  "formats (sample_info t fs) = Some fs"
  "title (sample_info t fs) = Some t"
  "thumbnail (sample_info t fs) = Some (''https://i.ytimg.com/'' @ t)"
  "get_thumbnail sample_env = Some"
  "estimate_total (sized_info 1000) = 1000"
  "estimate_total (sized_info 2000) = 2000"
  by (auto simp: sample_info_def sample_env_def estimate_total_def sized_info_def part_size_def
      py_or_def)

section \<open>Metadata fetches\<close>

text \<open>
  Claim C1, as stated: whatever the order in which the fetches complete, the displayed
  metadata is the one fetched for the most recent edit. In the run below the link is
  edited to \<open>a\<close> and then to \<open>b\<close>, the fetch for \<open>b\<close> completes first and the fetch for \<open>a\<close>
  last; in the end no callback waits and no fetch is in flight, the link input holds \<open>b\<close>,
  and title, thumbnail and \<open>current_info\<close> are those of \<open>a\<close>.
\<close>

theorem stale_fetch_overwrites_counterexample:
  "in_link_entry (run sample_env stale_fetch_schedule gui_init) = ''https://youtu.be/b''
   \<and> video_title (run sample_env stale_fetch_schedule gui_init) = ''A''
   \<and> thumbnail_canvas (run sample_env stale_fetch_schedule gui_init) = Some ''https://i.ytimg.com/A''
   \<and> current_info (run sample_env stale_fetch_schedule gui_init)
       = Some (sample_info ''A'' [audio_format 200])
   \<and> ui_queue (run sample_env stale_fetch_schedule gui_init) = []
   \<and> take 2 (threads (run sample_env stale_fetch_schedule gui_init)) = [Done, Done]"
proof -
  have "observed (\<lambda>r. (in_link_entry r, video_title r, thumbnail_canvas r, current_info r,
            ui_queue r, take 2 (threads r)))
          (run sample_env stale_fetch_schedule gui_init)
        = (''https://youtu.be/b'', ''A'', Some ''https://i.ytimg.com/A'',
           Some (sample_info ''A'' [audio_format 200]), [], [Done, Done])"
    by (simp add: stale_fetch_schedule_def run_simps sample_link sample_info_fields observed_def)
  then show ?thesis
    unfolding observed_def prod.inject by blast
qed

text \<open>
  Claim C1, amended: when two metadata fetches complete one after the other without
  overlapping (for each, the query returns, its thread runs its statements and the event
  loop runs the callbacks it queued, starting with no callback waiting), the displayed
  metadata (title, thumbnail, \<open>current_info\<close>) is the one of the fetch that completes
  second, whichever of the two was started first and whatever the link input holds: a
  result spawned for an older input overwrites state produced for a newer input.
\<close>

theorem last_completed_fetch_is_displayed:
  assumes "m < length (threads s)" and "n < length (threads s)" and "m \<noteq> n"
    and "threads s ! m = Extract_info um fm wait_link_done"
    and "threads s ! n = Extract_info un fn wait_link_done"
    and "ui_queue s = []"
  shows "current_info (run env (fetch_completion m iB @ fetch_completion n iA) s) = Some iA
       \<and> video_title (run env (fetch_completion m iB @ fetch_completion n iA) s) = or_empty (title iA)
       \<and> thumbnail_canvas (run env (fetch_completion m iB @ fetch_completion n iA) s) =
           (if or_empty (thumbnail iA) = [] then None
            else get_thumbnail env (or_empty (thumbnail iA)))
       \<and> in_link_entry (run env (fetch_completion m iB @ fetch_completion n iA) s) = in_link_entry s
       \<and> ui_queue (run env (fetch_completion m iB @ fetch_completion n iA) s) = []"
proof -
  let ?r = "run env (fetch_completion m iB) s"
  note b = fetch_completion_run [OF assms(1,4,6), of env iB]
  from b(6) obtain ts where ts: "threads ?r = (threads s)[m := Done] @ ts"
    by blast
  have n': "n < length (threads ?r)"
    using assms(2) by (simp add: ts)
  have t': "threads ?r ! n = Extract_info un fn wait_link_done"
    using assms(2,3,5) by (simp add: ts nth_append)
  note a = fetch_completion_run [OF n' t' b(1), of env iA]
  show ?thesis
    using a(1-5) b(5) by (simp add: run_append)
qed

theorem last_completed_fetch_is_displayed_witness:
  "(1::nat) < length (threads two_fetches) \<and> (0::nat) < length (threads two_fetches)
   \<and> threads two_fetches ! 1 = Extract_info ''https://youtu.be/b'' None wait_link_done
   \<and> threads two_fetches ! 0 = Extract_info ''https://youtu.be/a'' None wait_link_done
   \<and> ui_queue two_fetches = []
   \<and> current_info (run sample_env
        (fetch_completion 1 (sample_info ''B'' []) @ fetch_completion 0 (sample_info ''A'' []))
        two_fetches) = Some (sample_info ''A'' [])
   \<and> video_title (run sample_env
        (fetch_completion 1 (sample_info ''B'' []) @ fetch_completion 0 (sample_info ''A'' []))
        two_fetches) = ''A''
   \<and> thumbnail_canvas (run sample_env
        (fetch_completion 1 (sample_info ''B'' []) @ fetch_completion 0 (sample_info ''A'' []))
        two_fetches) = Some ''https://i.ytimg.com/A''
   \<and> in_link_entry (run sample_env
        (fetch_completion 1 (sample_info ''B'' []) @ fetch_completion 0 (sample_info ''A'' []))
        two_fetches) = ''https://youtu.be/b''"
proof -
  have h: "(1::nat) < length (threads two_fetches)" "(0::nat) < length (threads two_fetches)"
      "(1::nat) \<noteq> 0"
      "threads two_fetches ! 1 = Extract_info ''https://youtu.be/b'' None wait_link_done"
      "threads two_fetches ! 0 = Extract_info ''https://youtu.be/a'' None wait_link_done"
      "ui_queue two_fetches = []"
    by (simp_all add: two_fetches_def gui_init_eq)
  have e: "in_link_entry two_fetches = ''https://youtu.be/b''"
    by (simp add: two_fetches_def)
  from last_completed_fetch_is_displayed [OF h, of sample_env "sample_info ''B'' []" "sample_info ''A'' []"] h e
  show ?thesis
    by (simp add: or_empty_def sample_info_def sample_env_def)
qed

text \<open>
  Claim C9 at a failing fetch: link \<open>a\<close> is fetched and shown, the user enters \<open>b\<close>, and the
  fetch for \<open>b\<close> fails. The status line reads \<open>Error fetching link.\<close>, and the title, the
  thumbnail and \<open>current_info\<close> of \<open>a\<close> stay on display.
\<close>

theorem failed_fetch_keeps_metadata:
  "in_link_entry (run sample_env failed_fetch_schedule gui_init) = ''https://youtu.be/b''
   \<and> link_status (run sample_env failed_fetch_schedule gui_init) = ''Error fetching link.''
   \<and> video_title (run sample_env failed_fetch_schedule gui_init) = ''A''
   \<and> thumbnail_canvas (run sample_env failed_fetch_schedule gui_init) = Some ''https://i.ytimg.com/A''
   \<and> current_info (run sample_env failed_fetch_schedule gui_init)
       = Some (sample_info ''A'' [audio_format 200])
   \<and> ui_queue (run sample_env failed_fetch_schedule gui_init) = []"
proof -
  have "observed (\<lambda>r. (in_link_entry r, link_status r, video_title r, thumbnail_canvas r,
            current_info r, ui_queue r))
          (run sample_env failed_fetch_schedule gui_init)
        = (''https://youtu.be/b'', ''Error fetching link.'', ''A'', Some ''https://i.ytimg.com/A'',
           Some (sample_info ''A'' [audio_format 200]), [])"
    by (simp add: failed_fetch_schedule_def run_append first_fetch_state)
       (simp add: run_simps sample_link sample_info_fields observed_def)
  then show ?thesis
    unfolding observed_def prod.inject by blast
qed

text \<open>
  Claim C4, as stated: the cache is cleared before the new metadata is published. In the
  run below a size for link \<open>a\<close> is cached, and the fetch for \<open>b\<close> returns; once its thread
  has assigned \<open>current_info\<close> and queued the title update, the event loop shows the title
  of \<open>b\<close>, while the key of \<open>a\<close> is still in the cache and the clearing is the thread's
  next statement but one.
\<close>

theorem metadata_published_before_clear_counterexample:
  "video_title (run sample_env early_publish_schedule gui_init) = ''B''
   \<and> current_info (run sample_env early_publish_schedule gui_init)
       = Some (sample_info ''B'' [audio_format 200])
   \<and> size_cache (run sample_env early_publish_schedule gui_init)
        (''https://youtu.be/a'', True, ''Medium'') = Some 1000
   \<and> threads (run sample_env early_publish_schedule gui_init) ! 3
       = seq [Set_current_info (sample_info ''B'' [audio_format 200]), Clear_size_cache,
              After 0 Refresh_quality_menu, After 0 Update_filesize_display,
              After 0 (Link_status ''Link fetched!'')] Done"
proof -
  have "observed (\<lambda>r. (video_title r, current_info r,
            size_cache r (''https://youtu.be/a'', True, ''Medium''), threads r ! 3))
          (run sample_env early_publish_schedule gui_init)
        = (''B'', Some (sample_info ''B'' [audio_format 200]), Some 1000,
           seq [Set_current_info (sample_info ''B'' [audio_format 200]), Clear_size_cache,
              After 0 Refresh_quality_menu, After 0 Update_filesize_display,
              After 0 (Link_status ''Link fetched!'')] Done)"
    by (simp add: early_publish_schedule_def run_append first_fetch_state)
       (simp add: run_simps sample_link sample_info_fields observed_def estimate_and_update_size_def
          estimate_done_def)
  then show ?thesis
    unfolding observed_def prod.inject by blast
qed

lemma run_steps_fetched:
  "run_steps n (wait_link_fetched i) s =
     (if n = 0 then s
      else if n = 1 then s\<lparr>current_info := Some i\<rparr>
      else if n = 2 \<or> n = 3 then
        s\<lparr>current_info := Some i,
          ui_queue := ui_queue s @ [Upd (or_empty (title i)) (thumbnail i)]\<rparr>
      else if n = 4 then
        s\<lparr>current_info := Some i, size_cache := Map.empty,
          ui_queue := ui_queue s @ [Upd (or_empty (title i)) (thumbnail i)]\<rparr>
      else if n = 5 then
        s\<lparr>current_info := Some i, size_cache := Map.empty,
          ui_queue := ui_queue s @ [Upd (or_empty (title i)) (thumbnail i), Refresh_quality_menu]\<rparr>
      else if n = 6 then
        s\<lparr>current_info := Some i, size_cache := Map.empty,
          ui_queue := ui_queue s @ [Upd (or_empty (title i)) (thumbnail i), Refresh_quality_menu,
                                    Update_filesize_display]\<rparr>
      else run_prog (wait_link_fetched i) s)"
proof (cases "n < 7")
  case True
  then have "n = 0 \<or> n = 1 \<or> n = 2 \<or> n = 3 \<or> n = 4 \<or> n = 5 \<or> n = 6"
    by arith
  then show ?thesis
    by (elim disjE) (simp_all add: wait_link_fetched_def post_def eval_nat_numeral)
next
  case False
  then obtain m where "n = 7 + m"
    by (metis le_Suc_ex not_less)
  then show ?thesis
    by (simp add: wait_link_fetched_def post_def eval_nat_numeral)
qed

lemma run_steps_fetched_fields:
  "current_info (run_steps k (wait_link_fetched i) s) = (if k = 0 then current_info s else Some i)"
  "ui_queue (run_steps k (wait_link_fetched i) s) =
     ui_queue s @ take (if k < 2 then 0 else if k < 5 then 1 else k - 3) (fetched_callbacks i)"
  "size_cache (run_steps k (wait_link_fetched i) s) = (if k < 4 then size_cache s else Map.empty)"
proof -
  consider "k = 0" | "k = 1" | "k = 2" | "k = 3" | "k = 4" | "k = 5" | "k = 6" | "7 \<le> k"
    by linarith
  then have "current_info (run_steps k (wait_link_fetched i) s) = (if k = 0 then current_info s else Some i)
    \<and> ui_queue (run_steps k (wait_link_fetched i) s) =
       ui_queue s @ take (if k < 2 then 0 else if k < 5 then 1 else k - 3) (fetched_callbacks i)
    \<and> size_cache (run_steps k (wait_link_fetched i) s) = (if k < 4 then size_cache s else Map.empty)"
    by cases (simp_all add: run_steps_fetched run_wait_link_fetched fetched_callbacks_def)
  then show
    "current_info (run_steps k (wait_link_fetched i) s) = (if k = 0 then current_info s else Some i)"
    "ui_queue (run_steps k (wait_link_fetched i) s) =
       ui_queue s @ take (if k < 2 then 0 else if k < 5 then 1 else k - 3) (fetched_callbacks i)"
    "size_cache (run_steps k (wait_link_fetched i) s) = (if k < 4 then size_cache s else Map.empty)"
    by simp_all
qed

text \<open>
  Claim C4, amended: every successful metadata fetch clears the cache in its entirety
  with the fourth statement that its thread runs on the fetched metadata: after
  \<open>current_info\<close> is assigned and the title and thumbnail update is queued (from the
  first and the second statement on, the cache untouched), and before the gating and the
  size update are queued (the fifth and the sixth statement). While only this thread
  runs, the cache is empty from the fourth statement on.
\<close>

theorem cache_cleared_after_publication:
  assumes "n < length (threads s)"
    and "threads s ! n = Extract_info u f wait_link_done"
  shows "current_info (run env (Return n (Inr i) # replicate k (Step n)) s)
           = (if k = 0 then current_info s else Some i)
       \<and> ui_queue (run env (Return n (Inr i) # replicate k (Step n)) s)
           = ui_queue s @ take (if k < 2 then 0 else if k < 5 then 1 else k - 3) (fetched_callbacks i)
       \<and> size_cache (run env (Return n (Inr i) # replicate k (Step n)) s)
           = (if k < 4 then size_cache s else Map.empty)"
proof -
  let ?s1 = "s\<lparr>threads := (threads s)[n := wait_link_fetched i]\<rparr>"
  have "exec env (Return n (Inr i)) s = ?s1"
    using assms by (simp add: wait_link_done_def)
  then have "run env (Return n (Inr i) # replicate k (Step n)) s
      = (run_steps k (wait_link_fetched i) ?s1)
          \<lparr>threads := (threads ?s1)[n := remaining k (wait_link_fetched i)]\<rparr>"
    using steps_events [of n ?s1 "wait_link_fetched i" env k] assms(1)
    by (simp add: run_Cons)
  then show ?thesis
    by (simp add: run_steps_fetched_fields)
qed

theorem cache_cleared_after_publication_witness:
  "(0::nat) < length (threads cached_fetch)
   \<and> threads cached_fetch ! 0 = Extract_info ''https://youtu.be/b'' None wait_link_done
   \<and> current_info (run sample_env (Return 0 (Inr (sample_info ''B'' [])) # replicate 2 (Step 0))
        cached_fetch) = Some (sample_info ''B'' [])
   \<and> ui_queue (run sample_env (Return 0 (Inr (sample_info ''B'' [])) # replicate 2 (Step 0))
        cached_fetch) = [Upd ''B'' (Some ''https://i.ytimg.com/B'')]
   \<and> size_cache (run sample_env (Return 0 (Inr (sample_info ''B'' [])) # replicate 2 (Step 0))
        cached_fetch) (''https://youtu.be/a'', True, ''Medium'') = Some 2000
   \<and> ui_queue (run sample_env (Return 0 (Inr (sample_info ''B'' [])) # replicate 4 (Step 0))
        cached_fetch) = [Upd ''B'' (Some ''https://i.ytimg.com/B'')]
   \<and> size_cache (run sample_env (Return 0 (Inr (sample_info ''B'' [])) # replicate 4 (Step 0))
        cached_fetch) = Map.empty"
proof -
  have h: "(0::nat) < length (threads cached_fetch)"
      "threads cached_fetch ! 0 = Extract_info ''https://youtu.be/b'' None wait_link_done"
    by (simp_all add: cached_fetch_def)
  have c: "ui_queue cached_fetch = []" "current_info cached_fetch = None"
      "size_cache cached_fetch (''https://youtu.be/a'', True, ''Medium'') = Some 2000"
    by (simp_all add: cached_fetch_def gui_init_eq)
  from cache_cleared_after_publication [OF h, of sample_env "sample_info ''B'' []" 2]
    cache_cleared_after_publication [OF h, of sample_env "sample_info ''B'' []" 4] h c
  show ?thesis
    by (simp add: fetched_callbacks_def or_empty_def sample_info_def)
qed

section \<open>Size estimates\<close>

text \<open>
  Claim C2, as stated: a completed estimate is displayed only if its key still matches
  the selection. In the run below the estimate for Medium completes after the user has
  picked Low and after the estimate for Low was shown: Low is selected, 1000 is cached
  for Low, and the label shows the 2000 of Medium.
\<close>

theorem stale_estimate_displayed_counterexample:
  "quality_var (run sample_env stale_estimate_schedule gui_init) = ''Low''
   \<and> in_link_entry (run sample_env stale_estimate_schedule gui_init) = ''https://youtu.be/a''
   \<and> filesize_label (run sample_env stale_estimate_schedule gui_init) = Estimated 2000
   \<and> size_cache (run sample_env stale_estimate_schedule gui_init)
        (''https://youtu.be/a'', True, ''Low'') = Some 1000
   \<and> size_cache (run sample_env stale_estimate_schedule gui_init)
        (''https://youtu.be/a'', True, ''Medium'') = Some 2000"
proof -
  have "observed (\<lambda>r. (quality_var r, in_link_entry r, filesize_label r,
            size_cache r (''https://youtu.be/a'', True, ''Low''),
            size_cache r (''https://youtu.be/a'', True, ''Medium'')))
          (run sample_env stale_estimate_schedule gui_init)
        = (''Low'', ''https://youtu.be/a'', Estimated 2000, Some 1000, Some 2000)"
    by (simp add: stale_estimate_schedule_def run_append first_fetch_state)
       (simp add: run_simps sample_info_fields observed_def estimate_and_update_size_def
          estimate_done_def)
  then show ?thesis
    unfolding observed_def prod.inject by blast
qed

lemma estimate_completes_fields:
  assumes "ui_queue s = []"
  shows "filesize_label (estimate_completes env k i s) = Estimated (estimate_total i)"
    and "size_cache (estimate_completes env k i s) = (size_cache s)(k \<mapsto> estimate_total i)"
    and "quality_var (estimate_completes env k i s) = quality_var s"
    and "is_mp3 (estimate_completes env k i s) = is_mp3 s"
    and "in_link_entry (estimate_completes env k i s) = in_link_entry s"
  using assms
  by (simp_all add: estimate_completes_def drain_def estimate_done_def post_def run_callbacks_def)

text \<open>
  Claim C2, amended: every completed size estimation for a key writes its total into the
  cache under that key and shows it in the size label, whatever the selection is by
  then; the selection is untouched.
\<close>

theorem estimate_published_for_any_selection:
  assumes "ui_queue s = []"
  shows "filesize_label (estimate_completes env k i s) = Estimated (estimate_total i)
       \<and> size_cache (estimate_completes env k i s) = (size_cache s)(k \<mapsto> estimate_total i)
       \<and> request_key (estimate_completes env k i s) = request_key s"
  using estimate_completes_fields [OF assms] by (simp add: request_key_def)

theorem estimate_published_for_any_selection_witness:
  "ui_queue (gui_init\<lparr>in_link_entry := ''https://youtu.be/b'', quality_var := ''Low''\<rparr>) = []
   \<and> request_key (gui_init\<lparr>in_link_entry := ''https://youtu.be/b'', quality_var := ''Low''\<rparr>)
       = (''https://youtu.be/b'', True, ''Low'')
   \<and> filesize_label (estimate_completes sample_env (''https://youtu.be/a'', True, ''Medium'')
        (sized_info 2000) (gui_init\<lparr>in_link_entry := ''https://youtu.be/b'', quality_var := ''Low''\<rparr>))
       = Estimated 2000
   \<and> request_key (estimate_completes sample_env (''https://youtu.be/a'', True, ''Medium'')
        (sized_info 2000) (gui_init\<lparr>in_link_entry := ''https://youtu.be/b'', quality_var := ''Low''\<rparr>))
       = (''https://youtu.be/b'', True, ''Low'')"
proof -
  let ?s = "gui_init\<lparr>in_link_entry := ''https://youtu.be/b'', quality_var := ''Low''\<rparr>"
  have q: "ui_queue ?s = []"
    by (simp add: gui_init_eq)
  have k: "request_key ?s = (''https://youtu.be/b'', True, ''Low'')"
    by (simp add: request_key_def gui_init_eq sample_strip)
  from estimate_published_for_any_selection [OF q, of sample_env
      "(''https://youtu.be/a'', True, ''Medium'')" "sized_info 2000"] q k
  show ?thesis
    by (simp add: sample_info_fields)
qed

text \<open>
  Claim C5, as stated: two requests for one key issue at most one query. After the fetch
  of \<open>first_fetch\<close> the gating callback and the size callback have each asked for the size
  of the same key, nothing is cached for it, and two equal queries are in flight.
\<close>

theorem duplicate_size_queries_counterexample:
  "size_cache (run sample_env first_fetch gui_init) (''https://youtu.be/a'', True, ''Medium'') = None
   \<and> drop 1 (threads (run sample_env first_fetch gui_init))
       = [estimate_and_update_size ''https://youtu.be/a'' True ''Medium'',
          estimate_and_update_size ''https://youtu.be/a'' True ''Medium'']
   \<and> estimate_and_update_size ''https://youtu.be/a'' True ''Medium''
       = Extract_info ''https://youtu.be/a'' (Some Bestaudio)
           (estimate_done (''https://youtu.be/a'', True, ''Medium''))"
  by (simp add: first_fetch_state estimate_and_update_size_def estimate_fmt_def)

text \<open>
  Claim C5, amended: a request for a key that is in the cache shows the cached value and
  starts no query, so it gives the same value each time; a request for a key that is not
  in the cache starts a query of its own, also while one for the same key is in flight,
  so two such requests start two queries.
\<close>

theorem size_request_hits_cache_or_spawns:
  assumes "py_strip (in_link_entry s) \<noteq> []"
  shows "(size_cache s (request_key s) = Some v \<longrightarrow>
            update_filesize_display s = s\<lparr>filesize_label := Estimated v\<rparr>
            \<and> update_filesize_display (update_filesize_display s) = update_filesize_display s)
       \<and> (size_cache s (request_key s) = None \<longrightarrow>
            update_filesize_display s =
              s\<lparr>filesize_label := Estimating,
                threads := threads s @
                  [estimate_and_update_size (py_strip (in_link_entry s)) (is_mp3 s) (quality_var s)]\<rparr>
            \<and> threads (update_filesize_display (update_filesize_display s)) =
                threads s @
                  [estimate_and_update_size (py_strip (in_link_entry s)) (is_mp3 s) (quality_var s),
                   estimate_and_update_size (py_strip (in_link_entry s)) (is_mp3 s) (quality_var s)])"
  using assms by (simp add: update_filesize_display_def request_key_def Let_def)

theorem size_request_hits_cache_or_spawns_witness:
  "py_strip (in_link_entry (gui_init\<lparr>in_link_entry := ''https://youtu.be/a''\<rparr>)) \<noteq> []
   \<and> size_cache (gui_init\<lparr>in_link_entry := ''https://youtu.be/a''\<rparr>)
       (request_key (gui_init\<lparr>in_link_entry := ''https://youtu.be/a''\<rparr>)) = None
   \<and> threads (update_filesize_display (update_filesize_display
        (gui_init\<lparr>in_link_entry := ''https://youtu.be/a''\<rparr>)))
       = [estimate_and_update_size ''https://youtu.be/a'' True ''Medium'',
          estimate_and_update_size ''https://youtu.be/a'' True ''Medium'']
   \<and> py_strip (in_link_entry (gui_init\<lparr>in_link_entry := ''https://youtu.be/a'',
        size_cache := [(''https://youtu.be/a'', True, ''Medium'') \<mapsto> 2000]\<rparr>)) \<noteq> []
   \<and> update_filesize_display (gui_init\<lparr>in_link_entry := ''https://youtu.be/a'',
        size_cache := [(''https://youtu.be/a'', True, ''Medium'') \<mapsto> 2000]\<rparr>)
       = gui_init\<lparr>in_link_entry := ''https://youtu.be/a'',
        size_cache := [(''https://youtu.be/a'', True, ''Medium'') \<mapsto> 2000],
        filesize_label := Estimated 2000\<rparr>"
proof -
  let ?s = "gui_init\<lparr>in_link_entry := ''https://youtu.be/a''\<rparr>"
  let ?c = "gui_init\<lparr>in_link_entry := ''https://youtu.be/a'',
        size_cache := [(''https://youtu.be/a'', True, ''Medium'') \<mapsto> 2000]\<rparr>"
  have a: "py_strip (in_link_entry ?s) \<noteq> []" "py_strip (in_link_entry ?c) \<noteq> []"
    by (simp_all add: gui_init_eq sample_strip)
  have k: "size_cache ?s (request_key ?s) = None" "size_cache ?c (request_key ?c) = Some 2000"
    by (simp_all add: gui_init_eq request_key_def sample_strip)
  from size_request_hits_cache_or_spawns [OF a(1), of 0] k(1)
  have "threads (update_filesize_display (update_filesize_display ?s)) =
      threads ?s @
        [estimate_and_update_size (py_strip (in_link_entry ?s)) (is_mp3 ?s) (quality_var ?s),
         estimate_and_update_size (py_strip (in_link_entry ?s)) (is_mp3 ?s) (quality_var ?s)]"
    by blast
  moreover have "threads ?s = []" "py_strip (in_link_entry ?s) = ''https://youtu.be/a''"
      "is_mp3 ?s" "quality_var ?s = ''Medium''"
    by (simp_all add: gui_init_eq sample_strip)
  ultimately have t: "threads (update_filesize_display (update_filesize_display ?s)) =
      [estimate_and_update_size ''https://youtu.be/a'' True ''Medium'',
       estimate_and_update_size ''https://youtu.be/a'' True ''Medium'']"
    by (simp only: append_Nil eq_True)
  from size_request_hits_cache_or_spawns [OF a(2), of 2000] k(2)
  have "update_filesize_display ?c = ?c\<lparr>filesize_label := Estimated 2000\<rparr>"
    by blast
  then have c: "update_filesize_display ?c =
      gui_init\<lparr>in_link_entry := ''https://youtu.be/a'',
        size_cache := [(''https://youtu.be/a'', True, ''Medium'') \<mapsto> 2000],
        filesize_label := Estimated 2000\<rparr>"
    by (simp only:)
  from a k(1) t c show ?thesis
    by (intro conjI)
qed

end
